theory Spec2Isabelle
  imports Complex_Main
begin

section \<open>Letter Playground: the glyph model and its editor\<close>

text \<open>
  A shallow embedding of \<^verbatim>\<open>src/Letter_Playground.js\<close>: the class \<^verbatim>\<open>GlyphModel\<close>
  (path commands, transform parameters, snapshot history), the utilities it calls, and the
  point editing of the class \<^verbatim>\<open>Editor\<close>.

  Coordinates are JavaScript numbers in the source, binary64 floating point; here they
  are the real numbers such a value stands for. The transform and the editor round every
  arithmetic result, and take the rounding as a parameter (see the section on number
  arithmetic); the extents of the bounding box and the offsets of \<^verbatim>\<open>randomize\<close> are
  computed without rounding. Objects mutated in place become values returned updated.
  The calls that only repaint or notify (\<^verbatim>\<open>_emitChanged\<close>, \<^verbatim>\<open>redraw\<close>,
  \<^verbatim>\<open>ui.syncFromModel\<close>) change nothing of the model and are left out.
\<close>

subsection \<open>Path commands\<close>

text \<open>
  The commands are the objects of opentype.js: \<^verbatim>\<open>{type:'M',x,y}\<close>, \<^verbatim>\<open>{type:'L',x,y}\<close>,
  \<^verbatim>\<open>{type:'C',x1,y1,x2,y2,x,y}\<close>, \<^verbatim>\<open>{type:'Q',x1,y1,x,y}\<close> and \<^verbatim>\<open>{type:'Z'}\<close>.
  The tests \<^verbatim>\<open>'x' in c\<close>, \<^verbatim>\<open>'x1' in c\<close>, \<^verbatim>\<open>'x2' in c\<close> of the source are decided by
  the constructor.
\<close>

datatype command =
    Move real real
  | Line real real
  | Cubic real real real real real real
  | Quadratic real real real real
  | Close

type_synonym commands = "command list"

datatype error = TypeError | IllTypedRef | NonFinite

subsection \<open>Number arithmetic\<close>

text \<open>
  A JavaScript operation \<^verbatim>\<open>a + b\<close>, \<^verbatim>\<open>a - b\<close>, \<^verbatim>\<open>a * b\<close>, \<^verbatim>\<open>a / b\<close> computes the exact
  result and rounds it to the nearest binary64 value, ties to the even significand.
  The functions below that calculate take the rounding \<open>rnd\<close> as their first argument
  and apply it to every arithmetic result, in the order the source evaluates. Two
  roundings are used: \<open>round64\<close>, that of the program, and \<open>exact\<close>, no rounding at all,
  for what the code computes in exact arithmetic.

  A binary64 value is \<open>n * 2 ^ e\<close> with \<open>\<bar>n\<bar> < 2 ^ 53\<close> and \<open>e \<ge> -1074\<close>. \<open>round64 x\<close>
  takes the exponent of the last place from the binary logarithm of \<open>x\<close>, not below that
  of the subnormal numbers, and rounds \<open>x\<close> to a multiple of that place. The exponent has
  no upper bound here: overflow to \<^verbatim>\<open>Infinity\<close> is outside the model, as are \<^verbatim>\<open>Infinity\<close>
  and \<^verbatim>\<open>NaN\<close> as coordinates, and the sign of zero.
\<close>

type_synonym rounding = "real \<Rightarrow> real"

definition exact :: rounding where
  "exact x = x"

definition roundEven :: "real \<Rightarrow> int" where
  "roundEven r =
    (let f = \<lfloor>r\<rfloor>; d = r - of_int f
     in if d < 1 / 2 then f else if 1 / 2 < d then f + 1 else if even f then f else f + 1)"

definition round64 :: rounding where
  "round64 x =
    (if x = 0 then 0
     else let e = max \<lfloor>log 2 \<bar>x\<bar>\<rfloor> (- 1022) - 52
          in of_int (roundEven (x / 2 powr of_int e)) * 2 powr of_int e)"

text \<open>
  Below overflow, division is the one operation of the modelled code that can leave the
  finite numbers from finite operands: by zero it gives \<^verbatim>\<open>NaN\<close> (for \<open>0 / 0\<close>) or an
  infinity, here \<open>None\<close>.
\<close>

definition divide_js :: "rounding \<Rightarrow> real \<Rightarrow> real \<Rightarrow> real option" where
  "divide_js rnd a b = (if b = 0 then None else Some (rnd (a / b)))"

subsection \<open>The model object\<close>

record params =
  width :: real
  height :: real
  weight :: real
  slant :: real
  roundness :: real

record snapshot =
  snap_path :: commands
  snap_params :: params

record model =
  originalPath :: commands
  path :: commands
  char :: char
  params :: params
  undoStack :: "snapshot list"
  redoStack :: "snapshot list"
  maxHist :: nat

text \<open>
  The stacks are JavaScript arrays: \<^verbatim>\<open>push\<close> appends at the end, \<^verbatim>\<open>pop\<close> removes the
  last element and \<^verbatim>\<open>shift\<close> the first. The lists keep that order, oldest first.
\<close>

definition default_params :: params where
  "default_params = \<lparr>width = 1, height = 1, weight = 0, slant = 0, roundness = 0\<rparr>"

definition GlyphModel :: model where
  "GlyphModel = \<lparr>originalPath = [], path = [], char = CHR ''A'', params = default_params,
     undoStack = [], redoStack = [], maxHist = 60\<rparr>"

text \<open>
  \<^verbatim>\<open>copyCommands\<close> is a JSON round trip, a structural copy of the command list; on values
  it is the identity. The original path, the working path and every snapshot are made
  through it, so no command object is shared between them and an edit in place of the
  working path changes nothing else.
\<close>

definition copyCommands :: "commands \<Rightarrow> commands" where
  "copyCommands cmds = cmds"

subsection \<open>History\<close>

definition saveState :: "model \<Rightarrow> model" where
  "saveState m =
    (let snap = \<lparr>snap_path = copyCommands (path m), snap_params = params m\<rparr>;
         pushed = undoStack m @ [snap];
         kept = (if length pushed > maxHist m then tl pushed else pushed)
     in m\<lparr>undoStack := kept, redoStack := []\<rparr>)"

text \<open>
  \<^verbatim>\<open>_load(state)\<close>. Its guard \<^verbatim>\<open>if (!state) return\<close> never fires: \<^verbatim>\<open>undo\<close> and \<^verbatim>\<open>redo\<close>
  pass an element of a stack.
\<close>

definition load :: "snapshot \<Rightarrow> model \<Rightarrow> model" where
  "load state m = m\<lparr>path := copyCommands (snap_path state), params := snap_params state\<rparr>"

definition undo :: "model \<Rightarrow> model" where
  "undo m =
    (if length (undoStack m) > 1 then
       let popped = last (undoStack m);
           m1 = m\<lparr>redoStack := redoStack m @ [popped], undoStack := butlast (undoStack m)\<rparr>
       in load (last (undoStack m1)) m1
     else m)"

definition redo :: "model \<Rightarrow> model" where
  "redo m =
    (if length (redoStack m) \<noteq> 0 then
       let s = last (redoStack m);
           m1 = m\<lparr>redoStack := butlast (redoStack m)\<rparr>;
           m2 = m1\<lparr>undoStack := undoStack m1 @ [s]\<rparr>
       in load s m2
     else m)"

definition reset :: "model \<Rightarrow> model" where
  "reset m =
    saveState (m\<lparr>path := copyCommands (originalPath m), params := default_params,
                 undoStack := [], redoStack := []\<rparr>)"

subsection \<open>The environment: font and outline library\<close>

text \<open>
  Two globals of the source decide what \<^verbatim>\<open>generate\<close> and \<^verbatim>\<open>bboxOf\<close> do: \<^verbatim>\<open>font\<close>
  (null until a font is loaded) and the library \<^verbatim>\<open>opentype\<close> (undefined until its
  script is loaded). Neither is code of the repository, so both are parameters:
  a font maps a character to the commands of \<^verbatim>\<open>charToGlyph(ch).getPath(0, 0, 72)\<close>, and
  the library is its \<^verbatim>\<open>Path.getBoundingBox\<close>, giving the corners \<open>(x1, y1, x2, y2)\<close> or
  nothing (the method is absent or a corner is not finite).
\<close>

type_synonym corners = "real \<times> real \<times> real \<times> real"

record env =
  font :: "(char \<Rightarrow> commands) option"
  opentype :: "(commands \<Rightarrow> corners option) option"

text \<open>
  The fallback outline \<^verbatim>\<open>p.moveTo(0, 0); p.lineTo(40, 120); p.lineTo(80, 0); p.close()\<close>.
\<close>

definition fallbackPath :: commands where
  "fallbackPath = [Move 0 0, Line 40 120, Line 80 0, Close]"

text \<open>
  \<^verbatim>\<open>generate(ch)\<close>. A falsy \<^verbatim>\<open>ch\<close> (undefined, null or the empty string) returns at once.
  Without the library \<^verbatim>\<open>newPath()\<close> is the plain object \<^verbatim>\<open>{commands: []}\<close>, which has no
  \<^verbatim>\<open>moveTo\<close>: the call raises a TypeError after \<^verbatim>\<open>this.char\<close> has been assigned, and the
  error carries the model as it is left.
\<close>

definition generate :: "env \<Rightarrow> string option \<Rightarrow> model \<Rightarrow> (error \<times> model) + model" where
  "generate e ch m =
    (case ch of
       None \<Rightarrow> Inr m
     | Some [] \<Rightarrow> Inr m
     | Some (c0 # _) \<Rightarrow>
         (let m1 = m\<lparr>char := c0\<rparr> in
          case (font e, opentype e) of
            (Some f, Some _) \<Rightarrow> Inr (reset (m1\<lparr>originalPath := copyCommands (f c0)\<rparr>))
          | (_, Some _) \<Rightarrow> Inr (reset (m1\<lparr>originalPath := copyCommands fallbackPath\<rparr>))
          | (_, None) \<Rightarrow> Inl (TypeError, m1)))"

subsection \<open>Bounding box\<close>

record bbox =
  bb_x :: real
  bb_y :: real
  bb_w :: real
  bb_h :: real

text \<open>
  \<^verbatim>\<open>bboxOf(cmds)\<close>: a fixed box without the library, the zero box when the library gives no
  finite corners, and otherwise the corners turned into origin and extent.
\<close>

definition bboxOf :: "env \<Rightarrow> commands \<Rightarrow> bbox" where
  "bboxOf e cmds =
    (case opentype e of
       None \<Rightarrow> \<lparr>bb_x = 0, bb_y = 0, bb_w = 100, bb_h = 100\<rparr>
     | Some getBoundingBox \<Rightarrow>
         (case getBoundingBox (copyCommands cmds) of
            None \<Rightarrow> \<lparr>bb_x = 0, bb_y = 0, bb_w = 0, bb_h = 0\<rparr>
          | Some (x1, y1, x2, y2) \<Rightarrow> \<lparr>bb_x = x1, bb_y = y1, bb_w = x2 - x1, bb_h = y2 - y1\<rparr>))"

text \<open>The anchor and control points of a command, and the box grown to enclose points.\<close>

fun pointsOf :: "command \<Rightarrow> (real \<times> real) list" where
  "pointsOf (Move x y) = [(x, y)]"
| "pointsOf (Line x y) = [(x, y)]"
| "pointsOf (Cubic x1 y1 x2 y2 x y) = [(x1, y1), (x2, y2), (x, y)]"
| "pointsOf (Quadratic x1 y1 x y) = [(x1, y1), (x, y)]"
| "pointsOf Close = []"

fun enclose :: "corners \<Rightarrow> (real \<times> real) list \<Rightarrow> corners" where
  "enclose b [] = b"
| "enclose (x1, y1, x2, y2) ((px, py) # ps) =
     enclose (min x1 px, min y1 py, max x2 px, max y2 py) ps"

text \<open>
  Modelled from the spec: \<^verbatim>\<open>Path.getBoundingBox\<close> belongs to opentype.js and is not in the
  source. The spec: the axis-aligned box enclosing all anchor and control points in the
  path, control points of curves counting toward the box, and a zero-area box for an
  empty path.
\<close>

definition spec_getBoundingBox :: "commands \<Rightarrow> corners option" where
  "spec_getBoundingBox cmds =
    (case concat (map pointsOf cmds) of
       [] \<Rightarrow> Some (0, 0, 0, 0)
     | (px, py) # ps \<Rightarrow> Some (enclose (px, py, px, py) ps))"

subsection \<open>Transform parameters\<close>

text \<open>
  Modelled from the spec: \<^verbatim>\<open>lerp\<close> belongs to p5.js and is not in the source. The spec:
  linearly interpolate the control point toward its anchor by the factor \<open>t\<close>. The
  interpolation is computed as \<^verbatim>\<open>amt * (stop - start) + start\<close>, each operation rounded.
\<close>

definition lerp :: "rounding \<Rightarrow> real \<Rightarrow> real \<Rightarrow> real \<Rightarrow> real" where
  "lerp rnd start stop amt = rnd (rnd (amt * rnd (stop - start)) + start)"

text \<open>
  The three loops of \<^verbatim>\<open>applyParams\<close>, each the body for one command:
  \<^verbatim>\<open>c.x += c.y * tanv\<close>, \<^verbatim>\<open>c.x = (c.x - bb.x) * this.params.width + bb.x\<close> and
  \<^verbatim>\<open>c.x1 = lerp(c.x1, c.x, t)\<close>, with the same on the other coordinates.
\<close>

fun slantCommand :: "rounding \<Rightarrow> real \<Rightarrow> command \<Rightarrow> command" where
  "slantCommand rnd tanv (Move x y) = Move (rnd (x + rnd (y * tanv))) y"
| "slantCommand rnd tanv (Line x y) = Line (rnd (x + rnd (y * tanv))) y"
| "slantCommand rnd tanv (Cubic x1 y1 x2 y2 x y) =
     Cubic (rnd (x1 + rnd (y1 * tanv))) y1 (rnd (x2 + rnd (y2 * tanv))) y2
           (rnd (x + rnd (y * tanv))) y"
| "slantCommand rnd tanv (Quadratic x1 y1 x y) =
     Quadratic (rnd (x1 + rnd (y1 * tanv))) y1 (rnd (x + rnd (y * tanv))) y"
| "slantCommand rnd tanv Close = Close"

definition scaleCoord :: "rounding \<Rightarrow> real \<Rightarrow> real \<Rightarrow> real \<Rightarrow> real" where
  "scaleCoord rnd b f v = rnd (rnd (rnd (v - b) * f) + b)"

fun scaleCommand :: "rounding \<Rightarrow> bbox \<Rightarrow> real \<Rightarrow> real \<Rightarrow> command \<Rightarrow> command" where
  "scaleCommand rnd bb wd ht (Move x y) =
     Move (scaleCoord rnd (bb_x bb) wd x) (scaleCoord rnd (bb_y bb) ht y)"
| "scaleCommand rnd bb wd ht (Line x y) =
     Line (scaleCoord rnd (bb_x bb) wd x) (scaleCoord rnd (bb_y bb) ht y)"
| "scaleCommand rnd bb wd ht (Cubic x1 y1 x2 y2 x y) =
     Cubic (scaleCoord rnd (bb_x bb) wd x1) (scaleCoord rnd (bb_y bb) ht y1)
           (scaleCoord rnd (bb_x bb) wd x2) (scaleCoord rnd (bb_y bb) ht y2)
           (scaleCoord rnd (bb_x bb) wd x) (scaleCoord rnd (bb_y bb) ht y)"
| "scaleCommand rnd bb wd ht (Quadratic x1 y1 x y) =
     Quadratic (scaleCoord rnd (bb_x bb) wd x1) (scaleCoord rnd (bb_y bb) ht y1)
               (scaleCoord rnd (bb_x bb) wd x) (scaleCoord rnd (bb_y bb) ht y)"
| "scaleCommand rnd bb wd ht Close = Close"

fun roundCommand :: "rounding \<Rightarrow> real \<Rightarrow> command \<Rightarrow> command" where
  "roundCommand rnd t (Cubic x1 y1 x2 y2 x y) =
     Cubic (lerp rnd x1 x t) (lerp rnd y1 y t) (lerp rnd x2 x t) (lerp rnd y2 y t) x y"
| "roundCommand rnd t (Quadratic x1 y1 x y) =
     Quadratic (lerp rnd x1 x t) (lerp rnd y1 y t) x y"
| "roundCommand rnd t c = c"

text \<open>
  \<^verbatim>\<open>Math.tan(this.params.slant * (Math.PI / 4))\<close>, with \<^verbatim>\<open>Math.PI\<close> the rounded \<open>pi\<close> and
  the tangent taken as correctly rounded.
\<close>

definition slantTan :: "rounding \<Rightarrow> real \<Rightarrow> real" where
  "slantTan rnd s = rnd (tan (rnd (s * rnd (rnd pi / 4))))"

text \<open>The path after the slant and the scale step, before the roundness step.\<close>

definition slantedScaled :: "rounding \<Rightarrow> env \<Rightarrow> model \<Rightarrow> commands" where
  "slantedScaled rnd e m =
    (let cmds = copyCommands (originalPath m);
         cmds1 = (if slant (params m) \<noteq> 0
                  then map (slantCommand rnd (slantTan rnd (slant (params m)))) cmds
                  else cmds);
         bb = bboxOf e cmds1
     in if bb_w bb > 0 \<and> bb_h bb > 0
        then map (scaleCommand rnd bb (width (params m)) (height (params m))) cmds1
        else cmds1)"

definition applyParams :: "rounding \<Rightarrow> env \<Rightarrow> model \<Rightarrow> model" where
  "applyParams rnd e m =
    (let cmds2 = slantedScaled rnd e m;
         cmds3 = (if roundness (params m) > 0
                  then map (roundCommand rnd (roundness (params m))) cmds2
                  else cmds2)
     in saveState (m\<lparr>path := cmds3\<rparr>))"

subsection \<open>Randomize\<close>

text \<open>
  \<^verbatim>\<open>randomSeed\<close> and \<^verbatim>\<open>random\<close> belong to p5.js. The generator is a parameter: for a
  seed, the sequence of the values that successive calls of \<^verbatim>\<open>random()\<close> return after
  \<^verbatim>\<open>randomSeed(seed)\<close>. The loop threads the number of draws made so far.
\<close>

type_synonym generator = "int \<Rightarrow> nat \<Rightarrow> real"

definition jitter :: "(nat \<Rightarrow> real) \<Rightarrow> nat \<Rightarrow> real" where
  "jitter draws k = (draws k - 0.5) * 20"

fun randomizeCommand :: "(nat \<Rightarrow> real) \<Rightarrow> nat \<Rightarrow> command \<Rightarrow> command \<times> nat" where
  "randomizeCommand d k (Move x y) = (Move (x + jitter d k) (y + jitter d (k + 1)), k + 2)"
| "randomizeCommand d k (Line x y) = (Line (x + jitter d k) (y + jitter d (k + 1)), k + 2)"
| "randomizeCommand d k (Cubic x1 y1 x2 y2 x y) =
     (Cubic (x1 + jitter d (k + 2)) (y1 + jitter d (k + 3))
            (x2 + jitter d (k + 4)) (y2 + jitter d (k + 5))
            (x + jitter d k) (y + jitter d (k + 1)), k + 6)"
| "randomizeCommand d k (Quadratic x1 y1 x y) =
     (Quadratic (x1 + jitter d (k + 2)) (y1 + jitter d (k + 3))
                (x + jitter d k) (y + jitter d (k + 1)), k + 4)"
| "randomizeCommand d k Close = (Close, k)"

fun randomizeCommands :: "(nat \<Rightarrow> real) \<Rightarrow> nat \<Rightarrow> commands \<Rightarrow> commands" where
  "randomizeCommands d k [] = []"
| "randomizeCommands d k (c # cs) =
     (case randomizeCommand d k c of (c', k') \<Rightarrow> c' # randomizeCommands d k' cs)"

text \<open>\<^verbatim>\<open>randomize(seed = 42)\<close>: an undefined seed takes the default.\<close>

definition randomize :: "generator \<Rightarrow> int option \<Rightarrow> model \<Rightarrow> model" where
  "randomize g seed m =
    (let sd = (case seed of None \<Rightarrow> 42 | Some v \<Rightarrow> v)
     in saveState (m\<lparr>path := randomizeCommands (g sd) 0 (path m)\<rparr>))"

subsection \<open>The editor: point references\<close>

text \<open>
  A point reference is the object \<^verbatim>\<open>{index, type}\<close> with \<^verbatim>\<open>type\<close> one of \<^verbatim>\<open>'anchor'\<close>,
  \<^verbatim>\<open>'c1'\<close>, \<^verbatim>\<open>'c2'\<close>, \<^verbatim>\<open>'q'\<close>.
\<close>

datatype ptype = Anchor | C1 | C2 | Q

record pointref =
  index :: nat
  type :: ptype

text \<open>\<^verbatim>\<open>Math.hypot\<close> of JavaScript, the Euclidean norm, taken as correctly rounded.\<close>

definition hypot :: "rounding \<Rightarrow> real \<Rightarrow> real \<Rightarrow> real" where
  "hypot rnd a b = rnd (sqrt (a\<^sup>2 + b\<^sup>2))"

text \<open>
  Modelled from the spec: \<^verbatim>\<open>dist\<close> belongs to p5.js and is not in the source. The spec:
  the distance of a control point from the anchor, of the pointer from a point. It is
  computed as \<^verbatim>\<open>hypot(x2 - x1, y2 - y1)\<close>.
\<close>

definition dist_p5 :: "rounding \<Rightarrow> real \<Rightarrow> real \<Rightarrow> real \<Rightarrow> real \<Rightarrow> real" where
  "dist_p5 rnd x1 y1 x2 y2 = hypot rnd (rnd (x2 - x1)) (rnd (y2 - y1))"

fun isCubic :: "command \<Rightarrow> bool" where
  "isCubic (Cubic _ _ _ _ _ _) = True"
| "isCubic _ = False"

fun anchorOf :: "command \<Rightarrow> (real \<times> real) option" where
  "anchorOf (Move x y) = Some (x, y)"
| "anchorOf (Line x y) = Some (x, y)"
| "anchorOf (Cubic _ _ _ _ x y) = Some (x, y)"
| "anchorOf (Quadratic _ _ x y) = Some (x, y)"
| "anchorOf Close = None"

text \<open>
  \<^verbatim>\<open>pointHit(mx, my, hit = 10)\<close> scans the commands from the last to the first; \<open>r\<close> is
  the radius \<^verbatim>\<open>hit / this.cam.z\<close> that the source computes first. \<open>pointHitBelow\<close> is the
  loop with \<open>n\<close> commands left, at index \<open>n - 1\<close>.
\<close>

fun hitCommand :: "rounding \<Rightarrow> real \<Rightarrow> real \<Rightarrow> real \<Rightarrow> nat \<Rightarrow> command \<Rightarrow> pointref option" where
  "hitCommand rnd r mx my i (Cubic x1 y1 x2 y2 x y) =
     (if dist_p5 rnd mx my x1 y1 < r then Some \<lparr>index = i, type = C1\<rparr>
      else if dist_p5 rnd mx my x2 y2 < r then Some \<lparr>index = i, type = C2\<rparr>
      else if dist_p5 rnd mx my x y < r then Some \<lparr>index = i, type = Anchor\<rparr>
      else None)"
| "hitCommand rnd r mx my i (Quadratic x1 y1 x y) =
     (if dist_p5 rnd mx my x1 y1 < r then Some \<lparr>index = i, type = Q\<rparr>
      else if dist_p5 rnd mx my x y < r then Some \<lparr>index = i, type = Anchor\<rparr>
      else None)"
| "hitCommand rnd r mx my i (Move x y) =
     (if dist_p5 rnd mx my x y < r then Some \<lparr>index = i, type = Anchor\<rparr> else None)"
| "hitCommand rnd r mx my i (Line x y) =
     (if dist_p5 rnd mx my x y < r then Some \<lparr>index = i, type = Anchor\<rparr> else None)"
| "hitCommand rnd r mx my i Close = None"

fun pointHitBelow ::
  "rounding \<Rightarrow> commands \<Rightarrow> real \<Rightarrow> real \<Rightarrow> real \<Rightarrow> nat \<Rightarrow> pointref option" where
  "pointHitBelow rnd cmds r mx my 0 = None"
| "pointHitBelow rnd cmds r mx my (Suc i) =
     (case hitCommand rnd r mx my i (cmds ! i) of
        Some t \<Rightarrow> Some t
      | None \<Rightarrow> pointHitBelow rnd cmds r mx my i)"

definition pointHit :: "rounding \<Rightarrow> commands \<Rightarrow> real \<Rightarrow> real \<Rightarrow> real \<Rightarrow> pointref option" where
  "pointHit rnd cmds r mx my = pointHitBelow rnd cmds r mx my (length cmds)"

text \<open>
  The references \<^verbatim>\<open>pointHit\<close> can return: the index is in range and the command has the
  point named. The drag target and the selection both come from \<^verbatim>\<open>pointHit\<close>; a
  reference stays well typed as long as the path it was hit on keeps its commands.
\<close>

fun hasPoint :: "command \<Rightarrow> ptype \<Rightarrow> bool" where
  "hasPoint Close t = False"
| "hasPoint c Anchor = True"
| "hasPoint (Cubic _ _ _ _ _ _) C1 = True"
| "hasPoint (Cubic _ _ _ _ _ _) C2 = True"
| "hasPoint (Quadratic _ _ _ _) Q = True"
| "hasPoint c t = False"

definition wellTyped :: "commands \<Rightarrow> pointref \<Rightarrow> bool" where
  "wellTyped cmds ref \<longleftrightarrow> index ref < length cmds \<and> hasPoint (cmds ! index ref) (type ref)"

text \<open>
  \<^verbatim>\<open>prevCurve(i)\<close> reads \<^verbatim>\<open>commands[k].type\<close> from \<open>k = i\<close> downwards, which raises a
  TypeError when \<open>k\<close> is out of range; \<^verbatim>\<open>nextCurve(i)\<close> starts at \<open>i + 1\<close> and stops at the
  length. Both return \<open>-1\<close>, here \<open>None\<close>, when no command of type \<^verbatim>\<open>'C'\<close> is found.
\<close>

fun prevCurve :: "commands \<Rightarrow> nat \<Rightarrow> error + nat option" where
  "prevCurve cmds 0 =
     (if 0 < length cmds then (if isCubic (cmds ! 0) then Inr (Some 0) else Inr None)
      else Inl TypeError)"
| "prevCurve cmds (Suc k) =
     (if Suc k < length cmds
      then (if isCubic (cmds ! Suc k) then Inr (Some (Suc k)) else prevCurve cmds k)
      else Inl TypeError)"

function nextCurveFrom :: "commands \<Rightarrow> nat \<Rightarrow> nat option" where
  "nextCurveFrom cmds k =
     (if k < length cmds
      then (if isCubic (cmds ! k) then Some k else nextCurveFrom cmds (k + 1))
      else None)"
  by pat_completeness auto
termination
  by (relation "measure (\<lambda>(cmds, k). length cmds - k)") auto

definition nextCurve :: "commands \<Rightarrow> nat \<Rightarrow> nat option" where
  "nextCurve cmds i = nextCurveFrom cmds (i + 1)"

subsection \<open>The editor: reading and moving a point\<close>

text \<open>
  \<^verbatim>\<open>getPoint(ref)\<close> and \<^verbatim>\<open>setPoint(ref, x, y, lockCollinear)\<close> on the commands of the
  working path. An index out of range makes \<^verbatim>\<open>c\<close> undefined and the first property
  access raises a TypeError. On a reference that is not well typed (a selection kept
  across a change of glyph can be one) the source reads or creates properties the
  command type does not have, which no value of \<open>command\<close> represents; the model answers
  \<open>IllTypedRef\<close> there, and the properties below are about well-typed references.
\<close>

definition getPoint :: "commands \<Rightarrow> pointref \<Rightarrow> error + (real \<times> real)" where
  "getPoint cmds ref =
    (if index ref \<ge> length cmds then Inl TypeError
     else case (type ref, cmds ! index ref) of
       (Anchor, Move x y) \<Rightarrow> Inr (x, y)
     | (Anchor, Line x y) \<Rightarrow> Inr (x, y)
     | (Anchor, Cubic _ _ _ _ x y) \<Rightarrow> Inr (x, y)
     | (Anchor, Quadratic _ _ x y) \<Rightarrow> Inr (x, y)
     | (C1, Cubic x1 y1 _ _ _ _) \<Rightarrow> Inr (x1, y1)
     | (C2, Cubic _ _ x2 y2 _ _) \<Rightarrow> Inr (x2, y2)
     | (Q, Quadratic x1 y1 _ _) \<Rightarrow> Inr (x1, y1)
     | _ \<Rightarrow> Inl IllTypedRef)"

text \<open>
  The anchor branch on the edited command: \<^verbatim>\<open>c.x = x; c.y = y\<close> and, on a cubic,
  \<^verbatim>\<open>c.x2 += dx; c.y2 += dy\<close>.
\<close>

fun moveAnchor :: "rounding \<Rightarrow> real \<Rightarrow> real \<Rightarrow> real \<Rightarrow> real \<Rightarrow> command \<Rightarrow> command" where
  "moveAnchor rnd x y dx dy (Move _ _) = Move x y"
| "moveAnchor rnd x y dx dy (Line _ _) = Line x y"
| "moveAnchor rnd x y dx dy (Cubic x1 y1 x2 y2 _ _) =
     Cubic x1 y1 (rnd (x2 + dx)) (rnd (y2 + dy)) x y"
| "moveAnchor rnd x y dx dy (Quadratic x1 y1 _ _) = Quadratic x1 y1 x y"
| "moveAnchor rnd x y dx dy Close = Close"

text \<open>\<^verbatim>\<open>cmds[ni].x1 += dx; cmds[ni].y1 += dy\<close> on the cubic that \<^verbatim>\<open>nextCurve\<close> found.\<close>

fun shiftC1 :: "rounding \<Rightarrow> real \<Rightarrow> real \<Rightarrow> command \<Rightarrow> command" where
  "shiftC1 rnd dx dy (Cubic x1 y1 x2 y2 x y) = Cubic (rnd (x1 + dx)) (rnd (y1 + dy)) x2 y2 x y"
| "shiftC1 rnd dx dy c = c"

text \<open>\<^verbatim>\<open>Math.hypot(dx, dy) || 1\<close>: a zero length is replaced by 1.\<close>

definition lockLen :: "rounding \<Rightarrow> real \<Rightarrow> real \<Rightarrow> real" where
  "lockLen rnd dx dy = (if hypot rnd dx dy = 0 then 1 else hypot rnd dx dy)"

text \<open>
  The block under \<^verbatim>\<open>if (anchor && opp)\<close>: \<open>ai\<close> is the index of the command taken as
  anchor, \<open>oi\<close> the index of the command holding the opposite control and \<open>key\<close> which of
  its controls that is. Both commands are cubics, being the edited command or a result of
  \<^verbatim>\<open>prevCurve\<close> or \<^verbatim>\<open>nextCurve\<close>. The new control is \<^verbatim>\<open>ax - dx / len * ol\<close>. Were a
  quotient not finite, the source would store \<^verbatim>\<open>NaN\<close> or an infinity in the path, which
  no value of \<open>command\<close> represents: the model answers \<open>NonFinite\<close>.
\<close>

definition mirrorOpposite ::
  "rounding \<Rightarrow> commands \<Rightarrow> nat \<Rightarrow> nat \<Rightarrow> ptype \<Rightarrow> real \<Rightarrow> real \<Rightarrow> error + commands" where
  "mirrorOpposite rnd cmds ai oi key x y =
    (case (cmds ! ai, cmds ! oi) of
       (Cubic _ _ _ _ ax ay, Cubic ox1 oy1 ox2 oy2 ox oy) \<Rightarrow>
         (let dx = rnd (x - ax); dy = rnd (y - ay);
              ol = dist_p5 rnd ax ay (if key = C1 then ox1 else ox2)
                     (if key = C1 then oy1 else oy2);
              len = lockLen rnd dx dy
          in case (divide_js rnd dx len, divide_js rnd dy len) of
               (Some ux, Some uy) \<Rightarrow>
                 (let nx = rnd (ax - rnd (ux * ol)); ny = rnd (ay - rnd (uy * ol))
                  in if key = C1 then Inr (cmds[oi := Cubic nx ny ox2 oy2 ox oy])
                     else Inr (cmds[oi := Cubic ox1 oy1 nx ny ox oy]))
             | _ \<Rightarrow> Inl NonFinite)
     | _ \<Rightarrow> Inr cmds)"

definition setPoint ::
  "rounding \<Rightarrow> commands \<Rightarrow> pointref \<Rightarrow> real \<Rightarrow> real \<Rightarrow> bool \<Rightarrow> error + commands" where
  "setPoint rnd cmds ref x y lockCollinear =
    (let i = index ref in
     if i \<ge> length cmds then Inl TypeError
     else
       let c = cmds ! i in
       case type ref of
         Anchor \<Rightarrow>
           (case anchorOf c of
              None \<Rightarrow> Inl IllTypedRef
            | Some (cx, cy) \<Rightarrow>
                (let dx = rnd (x - cx); dy = rnd (y - cy);
                     cmds1 = cmds[i := moveAnchor rnd x y dx dy c]
                 in case nextCurve cmds1 i of
                      None \<Rightarrow> Inr cmds1
                    | Some ni \<Rightarrow> Inr (cmds1[ni := shiftC1 rnd dx dy (cmds1 ! ni)])))
       | C1 \<Rightarrow>
           (case c of
              Cubic x1 y1 x2 y2 cx cy \<Rightarrow>
                (let cmds1 = cmds[i := Cubic x y x2 y2 cx cy]
                 in if lockCollinear then
                      (case prevCurve cmds1 i of
                         Inl err \<Rightarrow> Inl err
                       | Inr None \<Rightarrow> Inr cmds1
                       | Inr (Some pv) \<Rightarrow> mirrorOpposite rnd cmds1 pv pv C2 x y)
                    else Inr cmds1)
            | _ \<Rightarrow> Inl IllTypedRef)
       | C2 \<Rightarrow>
           (case c of
              Cubic x1 y1 x2 y2 cx cy \<Rightarrow>
                (let cmds1 = cmds[i := Cubic x1 y1 x y cx cy]
                 in if lockCollinear then
                      (case nextCurve cmds1 i of
                         None \<Rightarrow> Inr cmds1
                       | Some ni \<Rightarrow> mirrorOpposite rnd cmds1 i ni C1 x y)
                    else Inr cmds1)
            | _ \<Rightarrow> Inl IllTypedRef)
       | Q \<Rightarrow>
           (case c of
              Quadratic x1 y1 cx cy \<Rightarrow> Inr (cmds[i := Quadratic x y cx cy])
            | _ \<Rightarrow> Inl IllTypedRef))"

text \<open>\<^verbatim>\<open>mouseReleased\<close> after a point drag: the edited path is committed to the history.\<close>

definition mouseReleased :: "model \<Rightarrow> model" where
  "mouseReleased m = saveState m"

subsection \<open>Parameter sliders and the reachable models\<close>

text \<open>
  \<^verbatim>\<open>UI.paramChange(name, slider)\<close> stores the slider value in \<^verbatim>\<open>params[name]\<close> and calls
  \<^verbatim>\<open>applyParams\<close>.
\<close>

datatype pname = Width | Height | Weight | Slant | Roundness

fun setParam :: "pname \<Rightarrow> real \<Rightarrow> params \<Rightarrow> params" where
  "setParam Width v p = p\<lparr>width := v\<rparr>"
| "setParam Height v p = p\<lparr>height := v\<rparr>"
| "setParam Weight v p = p\<lparr>weight := v\<rparr>"
| "setParam Slant v p = p\<lparr>slant := v\<rparr>"
| "setParam Roundness v p = p\<lparr>roundness := v\<rparr>"

definition paramChange :: "rounding \<Rightarrow> env \<Rightarrow> pname \<Rightarrow> real \<Rightarrow> model \<Rightarrow> model" where
  "paramChange rnd e name v m =
     applyParams rnd e (m\<lparr>params := setParam name v (params m)\<rparr>)"

text \<open>
  The models the program can be in: the constructor's, and whatever the handlers of the
  source make of a reachable model. A drag edits the working path in place through
  \<^verbatim>\<open>setPoint\<close>; a \<^verbatim>\<open>generate\<close> that raises leaves the model it had reached.
\<close>

inductive reachable :: "model \<Rightarrow> bool" where
  r_new: "reachable GlyphModel"
| r_generate: "reachable m \<Longrightarrow> generate e ch m = Inr m' \<Longrightarrow> reachable m'"
| r_generate_raise: "reachable m \<Longrightarrow> generate e ch m = Inl (err, m') \<Longrightarrow> reachable m'"
| r_reset: "reachable m \<Longrightarrow> reachable (reset m)"
| r_paramChange: "reachable m \<Longrightarrow> reachable (paramChange rnd e name v m)"
| r_randomize: "reachable m \<Longrightarrow> reachable (randomize g seed m)"
| r_undo: "reachable m \<Longrightarrow> reachable (undo m)"
| r_redo: "reachable m \<Longrightarrow> reachable (redo m)"
| r_drag: "reachable m \<Longrightarrow> setPoint rnd (path m) ref x y lock = Inr cmds \<Longrightarrow>
           reachable (m\<lparr>path := cmds\<rparr>)"
| r_mouseReleased: "reachable m \<Longrightarrow> reachable (mouseReleased m)"

subsection \<open>Predicates and sample data for the properties\<close>

text \<open>The \<^verbatim>\<open>type\<close> field of a command.\<close>

fun cmdType :: "command \<Rightarrow> char" where
  "cmdType (Move _ _) = CHR ''M''"
| "cmdType (Line _ _) = CHR ''L''"
| "cmdType (Cubic _ _ _ _ _ _) = CHR ''C''"
| "cmdType (Quadratic _ _ _ _) = CHR ''Q''"
| "cmdType Close = CHR ''Z''"

text \<open>A curve whose control points all lie on its end anchor.\<close>

fun collapsed :: "command \<Rightarrow> bool" where
  "collapsed (Cubic x1 y1 x2 y2 x y) \<longleftrightarrow> x1 = x \<and> y1 = y \<and> x2 = x \<and> y2 = y"
| "collapsed (Quadratic x1 y1 x y) \<longleftrightarrow> x1 = x \<and> y1 = y"
| "collapsed c \<longleftrightarrow> True"

text \<open>
  The coordinates of a command, and the commands whose coordinates the rounding leaves
  as they are: numbers of the format.
\<close>

fun coordsOf :: "command \<Rightarrow> real list" where
  "coordsOf (Move x y) = [x, y]"
| "coordsOf (Line x y) = [x, y]"
| "coordsOf (Cubic x1 y1 x2 y2 x y) = [x1, y1, x2, y2, x, y]"
| "coordsOf (Quadratic x1 y1 x y) = [x1, y1, x, y]"
| "coordsOf Close = []"

definition inFormat :: "rounding \<Rightarrow> command \<Rightarrow> bool" where
  "inFormat rnd c = list_all (\<lambda>v. rnd v = v) (coordsOf c)"

text \<open>
  The first cubic after index \<open>i\<close>, said without the loop of \<^verbatim>\<open>nextCurve\<close>: a cubic at a
  higher index with no cubic in between. Commands of other types may lie in between, the
  end of a subpath and the start of another among them.
\<close>

definition firstCubicAfter :: "commands \<Rightarrow> nat \<Rightarrow> nat \<Rightarrow> bool" where
  "firstCubicAfter cmds i n \<longleftrightarrow>
     i < n \<and> n < length cmds \<and> isCubic (cmds ! n) \<and>
     (\<forall>k. i < k \<and> k < n \<longrightarrow> \<not> isCubic (cmds ! k))"

text \<open>
  The coordinate \<^verbatim>\<open>ax - dx / len * ol\<close> that the lock gives the opposite control, for
  the dragged coordinate \<open>v\<close>, the anchor coordinate \<open>a\<close>, the guarded length \<open>len\<close> and
  the old distance \<open>ol\<close>.
\<close>

definition mirrored :: "rounding \<Rightarrow> real \<Rightarrow> real \<Rightarrow> real \<Rightarrow> real \<Rightarrow> real" where
  "mirrored rnd a v len ol = rnd (a - rnd (rnd (rnd (v - a) / len) * ol))"

text \<open>
  The invariant behind the bound on the undo stack: \<^verbatim>\<open>redo\<close> pushes without looking at
  \<^verbatim>\<open>maxHist\<close>, so the bound on the undo stack alone is not preserved; the two stacks
  together are.
\<close>

definition hist_inv :: "model \<Rightarrow> bool" where
  "hist_inv m \<longleftrightarrow> maxHist m = 60 \<and> length (undoStack m) + length (redoStack m) \<le> 60"

definition blankSnapshot :: snapshot where
  "blankSnapshot = \<lparr>snap_path = [], snap_params = default_params\<rparr>"

text \<open>The library is loaded and no font is: the state in which the fallback outline is used.\<close>

definition noFont :: env where
  "noFont = \<lparr>font = None, opentype = Some spec_getBoundingBox\<rparr>"

text \<open>A model after one edit of the fallback outline, with two snapshots.\<close>

definition editedModel :: model where
  "editedModel = \<lparr>originalPath = fallbackPath, path = [Move 5 5, Line 40 120, Line 80 0, Close],
     char = CHR ''A'', params = default_params,
     undoStack = [\<lparr>snap_path = fallbackPath, snap_params = default_params\<rparr>,
                  \<lparr>snap_path = [Move 5 5, Line 40 120, Line 80 0, Close],
                   snap_params = default_params\<rparr>],
     redoStack = [], maxHist = 60\<rparr>"

text \<open>Two cubic segments in a row, sharing the anchor \<open>(30, 0)\<close>.\<close>

definition twoCurves :: commands where
  "twoCurves = [Move 0 0, Cubic 10 0 20 0 30 0, Cubic 40 0 50 0 60 0]"

definition curvyModel :: model where
  "curvyModel = GlyphModel\<lparr>originalPath := [Move 0 0, Cubic 10 0 20 0 30 0, Quadratic 1 2 3 4, Close],
     params := default_params\<lparr>weight := 30, slant := 0, roundness := 1\<rparr>\<rparr>"

text \<open>
  The binary64 values that JavaScript prints as \<^verbatim>\<open>0.2\<close>, \<^verbatim>\<open>0.6\<close>, \<^verbatim>\<open>0.7\<close>, \<^verbatim>\<open>0.8\<close>,
  \<^verbatim>\<open>0.9\<close> and \<^verbatim>\<open>0.8999999999999999\<close>: the values of the literals, none of them the
  decimal fraction itself.
\<close>

definition d0_6 :: real where
  "d0_6 = 5404319552844595 / 2 ^ 53"

definition d0_8 :: real where
  "d0_8 = 7205759403792794 / 2 ^ 53"

definition d0_2 :: real where
  "d0_2 = 7205759403792794 / 2 ^ 55"

definition d0_7 :: real where
  "d0_7 = 6305039478318694 / 2 ^ 53"

definition d0_9 :: real where
  "d0_9 = 8106479329266893 / 2 ^ 53"

definition d0_8999999999999999 :: real where
  "d0_8999999999999999 = 8106479329266892 / 2 ^ 53"

text \<open>A triangle with corners at \<^verbatim>\<open>0.2\<close> and \<^verbatim>\<open>0.9\<close>, under the default parameters.\<close>

definition triangleModel :: model where
  "triangleModel =
     GlyphModel\<lparr>originalPath := [Move d0_2 d0_2, Line d0_9 d0_9, Line d0_9 d0_2, Close]\<rparr>"

text \<open>A flat cubic from 0 to \<^verbatim>\<open>0.9\<close> with its first control at \<^verbatim>\<open>0.2\<close>, at roundness 1.\<close>

definition flatCurveModel :: model where
  "flatCurveModel =
     GlyphModel\<lparr>originalPath := [Move 0 0, Cubic d0_2 0 0 0 d0_9 0],
       params := default_params\<lparr>roundness := 1\<rparr>\<rparr>"

text \<open>
  A line, a quadratic and, in a second subpath, a cubic: the anchor of the line at index 1
  starts the quadratic, and the next cubic is in the other subpath.
\<close>

definition mixedPath :: commands where
  "mixedPath = [Move 0 0, Line 10 0, Quadratic 15 5 20 0, Close,
                Move 100 100, Cubic 110 100 120 100 130 100]"


section \<open>Properties\<close>

declare nextCurveFrom.simps [simp del]

subsection \<open>Auxiliary facts\<close>

lemma path_saveState: "path (saveState m) = path m"
  by (simp add: saveState_def Let_def)

lemma originalPath_saveState: "originalPath (saveState m) = originalPath m"
  by (simp add: saveState_def Let_def)

text \<open>
  Rounding to binary64. A value whose last place is known is rounded by rounding its
  multiple of that place to an integer; integers below \<open>2 ^ 53\<close> are values of the format.
\<close>

lemma roundEven_of_int: "roundEven (of_int n) = n"
  by (simp add: roundEven_def)

lemma round64_zero: "round64 0 = 0"
  by (simp add: round64_def)

lemma two_powr_neg: "(2::real) powr of_int (- int k) = 1 / 2 ^ k"
proof -
  have "(2::real) powr of_int (- int k) = 2 powr (- real k)" by simp
  also have "\<dots> = inverse (2 powr real k)" by (rule powr_minus)
  also have "\<dots> = 1 / 2 ^ k" by (simp add: powr_realpow inverse_eq_divide)
  finally show ?thesis .
qed

lemma round64_scaled:
  assumes lo: "2 ^ 52 \<le> \<bar>x\<bar> * 2 ^ k" and hi: "\<bar>x\<bar> * 2 ^ k < 2 ^ 53" and k: "k \<le> 1074"
  shows "round64 x = of_int (roundEven (x * 2 ^ k)) / 2 ^ k"
proof -
  have x0: "x \<noteq> 0" using lo by auto
  have p: "(2::real) powr of_int (52 - int k) = 2 ^ 52 / 2 ^ k"
    by (simp add: powr_diff powr_realpow)
  have p1: "(2::real) powr (of_int (52 - int k) + 1) = 2 ^ 53 / 2 ^ k"
    by (simp add: powr_diff powr_add powr_realpow)
  have b1: "2 powr of_int (52 - int k) \<le> \<bar>x\<bar>"
    unfolding p using lo by (simp add: field_simps)
  have b2: "\<bar>x\<bar> < 2 powr (of_int (52 - int k) + 1)"
    unfolding p1 using hi by (simp add: field_simps)
  have fl: "\<lfloor>log 2 \<bar>x\<bar>\<rfloor> = 52 - int k"
    using floor_log_eq_powr_iff [of "\<bar>x\<bar>" 2 "52 - int k"] x0 b1 b2 by simp
  have e: "max \<lfloor>log 2 \<bar>x\<bar>\<rfloor> (- 1022) - 52 = - int k"
    using fl k by simp
  have q: "(2::real) powr of_int (- int k) = 1 / 2 ^ k"
    by (simp add: powr_minus powr_realpow inverse_eq_divide)
  show ?thesis using x0 by (simp add: round64_def e q Let_def del: of_int_minus)
qed

lemma round64_of_int:
  assumes b: "\<bar>n\<bar> < 2 ^ 53"
  shows "round64 (of_int n) = of_int n"
proof (cases "n = 0")
  case True
  then show ?thesis by (simp add: round64_zero)
next
  case False
  define x :: real where "x = of_int n"
  define L where "L = \<lfloor>log 2 \<bar>x\<bar>\<rfloor>"
  have x1: "1 \<le> \<bar>x\<bar>" using False by (simp add: x_def)
  have x2: "\<bar>x\<bar> < 2 ^ 53"
  proof -
    have "real_of_int \<bar>n\<bar> < real_of_int (2 ^ 53)" using b by (simp only: of_int_less_iff)
    then show ?thesis by (simp add: x_def)
  qed
  have L0: "0 \<le> L"
  proof -
    have "0 \<le> log 2 \<bar>x\<bar>" using x1 by simp
    then show ?thesis by (simp add: L_def)
  qed
  have L52: "L \<le> 52"
  proof -
    have "(2::real) powr real 53 = 2 ^ 53" by (rule powr_realpow) simp
    then have "\<bar>x\<bar> < 2 powr real 53" using x2 by simp
    then have "log 2 \<bar>x\<bar> < real 53" using x1 by (subst log_less_iff) simp_all
    then have "log 2 \<bar>x\<bar> < 53" by simp
    then have "L < 53" by (simp add: L_def floor_less_iff)
    then show ?thesis by simp
  qed
  define k where "k = nat (52 - L)"
  have e: "max L (- 1022) - 52 = - int k" using L0 L52 by (simp add: k_def)
  have q: "(2::real) powr of_int (- int k) = 1 / 2 ^ k"
    by (rule two_powr_neg)
  have i: "x * 2 ^ k = of_int (n * 2 ^ k)"
    by (simp add: x_def)
  have x0: "x \<noteq> 0" using x1 by auto
  have "round64 x = of_int (roundEven (x * 2 ^ k)) / 2 ^ k"
    using x0 unfolding round64_def L_def [symmetric] Let_def e q by simp
  also have "\<dots> = of_int (n * 2 ^ k) / 2 ^ k"
    by (simp only: i roundEven_of_int)
  also have "\<dots> = x" by (simp add: x_def)
  finally show ?thesis by (simp add: x_def)
qed

lemma round64_numeral: "numeral w < (2::int) ^ 53 \<Longrightarrow> round64 (numeral w) = numeral w"
  using round64_of_int [of "numeral w"] by simp

lemma round64_neg_numeral:
  "numeral w < (2::int) ^ 53 \<Longrightarrow> round64 (- numeral w) = - numeral w"
  using round64_of_int [of "- numeral w"] by simp

lemma round64_one: "round64 1 = 1"
  using round64_of_int [of 1] by simp

lemmas round64_int = round64_zero round64_one round64_numeral round64_neg_numeral

text \<open>The tenths used in the examples, as the program computes with them.\<close>

lemma round64_d0_2: "round64 d0_2 = d0_2"
  unfolding d0_2_def by (subst round64_scaled [where k = 55]) (simp_all add: roundEven_def)

lemma round64_d0_7: "round64 d0_7 = d0_7"
  unfolding d0_7_def by (subst round64_scaled [where k = 53]) (simp_all add: roundEven_def)

lemma round64_d0_9: "round64 d0_9 = d0_9"
  unfolding d0_9_def by (subst round64_scaled [where k = 53]) (simp_all add: roundEven_def)

lemma round64_d0_9_minus_d0_2: "round64 (d0_9 - d0_2) = d0_7"
  unfolding d0_9_def d0_2_def d0_7_def
  by (subst round64_scaled [where k = 53]) (simp_all add: roundEven_def)

lemma round64_d0_7_plus_d0_2: "round64 (d0_7 + d0_2) = d0_8999999999999999"
  unfolding d0_8999999999999999_def d0_2_def d0_7_def
  by (subst round64_scaled [where k = 53]) (simp_all add: roundEven_def)

lemmas round64_tenths = round64_d0_2 round64_d0_7 round64_d0_9 round64_d0_9_minus_d0_2
  round64_d0_7_plus_d0_2

lemma d0_order: "0 < d0_2" "d0_2 < d0_9" "d0_8999999999999999 \<noteq> d0_9"
  by (simp_all add: d0_2_def d0_9_def d0_8999999999999999_def)

text \<open>
  \<^verbatim>\<open>nextCurve\<close> returns the first cubic after the index, and nothing when there is none;
  it is blind to a change of the command at the index itself.
\<close>

lemma nextCurveFrom_Some:
  "nextCurveFrom cmds k = Some n \<Longrightarrow> k \<le> n \<and> n < length cmds \<and> isCubic (cmds ! n)"
proof (induction cmds k rule: nextCurveFrom.induct)
  case (1 cmds k)
  show ?case
  proof (cases "k < length cmds \<and> \<not> isCubic (cmds ! k)")
    case True
    then have "nextCurveFrom cmds (k + 1) = Some n"
      using "1.prems" by (subst (asm) nextCurveFrom.simps) simp
    then have "k + 1 \<le> n \<and> n < length cmds \<and> isCubic (cmds ! n)"
      using "1.IH" True by blast
    then show ?thesis by simp
  next
    case False
    then show ?thesis using "1.prems"
      by (subst (asm) nextCurveFrom.simps) (auto split: if_splits)
  qed
qed

lemma nextCurveFrom_skips:
  "nextCurveFrom cmds k = Some n \<Longrightarrow> k \<le> j \<Longrightarrow> j < n \<Longrightarrow> \<not> isCubic (cmds ! j)"
proof (induction cmds k rule: nextCurveFrom.induct)
  case (1 cmds k)
  show ?case
  proof (cases "k < length cmds \<and> \<not> isCubic (cmds ! k)")
    case True
    then have n: "nextCurveFrom cmds (k + 1) = Some n"
      using "1.prems"(1) by (subst (asm) nextCurveFrom.simps) simp
    show ?thesis
    proof (cases "j = k")
      case True
      then show ?thesis using \<open>k < length cmds \<and> \<not> isCubic (cmds ! k)\<close> by simp
    next
      case False
      then have "k + 1 \<le> j" using "1.prems"(2) by simp
      then show ?thesis using "1.IH" True n "1.prems"(3) by blast
    qed
  next
    case False
    then have "n = k" using "1.prems"(1)
      by (subst (asm) nextCurveFrom.simps) (auto split: if_splits)
    then show ?thesis using "1.prems" by simp
  qed
qed

lemma nextCurveFrom_first:
  "k \<le> n \<Longrightarrow> n < length cmds \<Longrightarrow> isCubic (cmds ! n) \<Longrightarrow>
   (\<forall>j. k \<le> j \<and> j < n \<longrightarrow> \<not> isCubic (cmds ! j)) \<Longrightarrow> nextCurveFrom cmds k = Some n"
proof (induction cmds k rule: nextCurveFrom.induct)
  case (1 cmds k)
  show ?case
  proof (cases "k = n")
    case True
    then show ?thesis using "1.prems" by (subst nextCurveFrom.simps) simp
  next
    case False
    then have kn: "k < n" using "1.prems"(1) by simp
    then have nk: "\<not> isCubic (cmds ! k)" and kl: "k < length cmds"
      using "1.prems" by auto
    have "nextCurveFrom cmds (k + 1) = Some n"
      using "1.IH" kl nk kn "1.prems" by auto
    then show ?thesis using kl nk by (subst nextCurveFrom.simps) simp
  qed
qed

lemma nextCurve_firstCubicAfter: "nextCurve cmds i = Some n \<longleftrightarrow> firstCubicAfter cmds i n"
proof
  assume a: "nextCurve cmds i = Some n"
  then have "i + 1 \<le> n \<and> n < length cmds \<and> isCubic (cmds ! n)"
    by (simp only: nextCurve_def nextCurveFrom_Some)
  moreover have "\<forall>k. i < k \<and> k < n \<longrightarrow> \<not> isCubic (cmds ! k)"
    using a nextCurveFrom_skips [of cmds "i + 1" n] by (simp add: nextCurve_def)
  ultimately show "firstCubicAfter cmds i n" by (simp add: firstCubicAfter_def)
next
  assume "firstCubicAfter cmds i n"
  then show "nextCurve cmds i = Some n"
    using nextCurveFrom_first [of "i + 1" n cmds] by (simp add: firstCubicAfter_def nextCurve_def)
qed

lemma nextCurveFrom_update:
  "i < k \<Longrightarrow> nextCurveFrom (cmds[i := c]) k = nextCurveFrom cmds k"
proof (induction cmds k rule: nextCurveFrom.induct)
  case (1 cmds k)
  show ?case
  proof (cases "k < length cmds \<and> \<not> isCubic (cmds ! k)")
    case True
    then have "nextCurveFrom (cmds[i := c]) (k + 1) = nextCurveFrom cmds (k + 1)"
      using "1.IH" "1.prems" by simp
    then show ?thesis using True "1.prems"
      by (subst nextCurveFrom.simps, subst (2) nextCurveFrom.simps) simp
  next
    case False
    then show ?thesis using "1.prems"
      by (subst nextCurveFrom.simps, subst (2) nextCurveFrom.simps) auto
  qed
qed

lemma nextCurve_Some:
  "nextCurve cmds i = Some n \<Longrightarrow> i < n \<and> n < length cmds \<and> isCubic (cmds ! n)"
  using nextCurveFrom_Some [of cmds "i + 1" n] by (simp add: nextCurve_def)

lemma nextCurve_update: "nextCurve (cmds[i := c]) i = nextCurve cmds i"
  by (simp add: nextCurve_def nextCurveFrom_update)

lemma nextCurve_adjacent:
  "Suc i < length cmds \<Longrightarrow> isCubic (cmds ! Suc i) \<Longrightarrow> nextCurve cmds i = Some (Suc i)"
  by (simp add: nextCurve_def nextCurveFrom.simps [of cmds "Suc i"])

text \<open>On a cubic, \<^verbatim>\<open>prevCurve\<close> finds the command it starts from.\<close>

lemma prevCurve_self:
  "i < length cmds \<Longrightarrow> isCubic (cmds ! i) \<Longrightarrow> prevCurve cmds i = Inr (Some i)"
  by (cases i) simp_all

text \<open>Every reference that \<^verbatim>\<open>pointHit\<close> returns is well typed.\<close>

lemma hitCommand_Some:
  "hitCommand rnd r mx my i c = Some t \<Longrightarrow> index t = i \<and> hasPoint c (type t)"
  by (cases c) (auto split: if_splits)

lemma pointHitBelow_wellTyped:
  "pointHitBelow rnd cmds r mx my n = Some t \<Longrightarrow> n \<le> length cmds \<Longrightarrow> wellTyped cmds t"
proof (induction n)
  case 0
  then show ?case by simp
next
  case (Suc n)
  show ?case
  proof (cases "hitCommand rnd r mx my n (cmds ! n)")
    case None
    then show ?thesis using Suc by simp
  next
    case (Some u)
    then have "u = t" using Suc.prems(1) by simp
    then show ?thesis using hitCommand_Some [OF Some] Suc.prems(2) by (simp add: wellTyped_def)
  qed
qed

lemma pointHit_wellTyped: "pointHit rnd cmds r mx my = Some t \<Longrightarrow> wellTyped cmds t"
  by (simp add: pointHit_def pointHitBelow_wellTyped)

lemma getPoint_anchor:
  "getPoint cmds \<lparr>index = i, type = Anchor\<rparr> = Inr (ax, ay) \<longleftrightarrow>
   i < length cmds \<and> anchorOf (cmds ! i) = Some (ax, ay)"
  by (cases "cmds ! i") (auto simp: getPoint_def)

subsection \<open>History\<close>

lemma undo_noop: "length (undoStack m) \<le> 1 \<Longrightarrow> undo m = m"
  by (simp add: undo_def)

lemma undo_pops:
  "undoStack m = us @ [s', s] \<Longrightarrow>
   undo m = m\<lparr>path := snap_path s', params := snap_params s',
              undoStack := us @ [s'], redoStack := redoStack m @ [s]\<rparr>"
  by (simp add: undo_def load_def copyCommands_def Let_def butlast_append)

lemma redo_noop: "redoStack m = [] \<Longrightarrow> redo m = m"
  by (simp add: redo_def)

lemma redo_pops:
  "redoStack m = rs @ [s] \<Longrightarrow>
   redo m = m\<lparr>path := snap_path s, params := snap_params s,
              undoStack := undoStack m @ [s], redoStack := rs\<rparr>"
  by (simp add: redo_def load_def copyCommands_def Let_def)

text \<open>
  Claim C3. \<^verbatim>\<open>undo\<close> changes nothing when the undo stack has at most one entry;
  otherwise, with \<open>s\<close> on top of \<open>s'\<close>, it moves \<open>s\<close> to the redo stack and restores path
  and params from \<open>s'\<close>, the new top. \<^verbatim>\<open>redo\<close> changes nothing when the redo stack is
  empty; otherwise it moves the top \<open>s\<close> of the redo stack back onto the undo stack and
  restores path and params from it.
\<close>

theorem undo_redo_stacks:
  "(length (undoStack m) \<le> 1 \<longrightarrow> undo m = m) \<and>
   (\<forall>us s' s. undoStack m = us @ [s', s] \<longrightarrow>
      undo m = m\<lparr>path := snap_path s', params := snap_params s',
                 undoStack := us @ [s'], redoStack := redoStack m @ [s]\<rparr>) \<and>
   (redoStack m = [] \<longrightarrow> redo m = m) \<and>
   (\<forall>rs s. redoStack m = rs @ [s] \<longrightarrow>
      redo m = m\<lparr>path := snap_path s, params := snap_params s,
                 undoStack := undoStack m @ [s], redoStack := rs\<rparr>)"
  using undo_noop undo_pops redo_noop redo_pops by blast

text \<open>
  On the edited model: undo restores the fallback outline and fills the redo stack, a
  second undo stops at the baseline, and redo brings the edit back.
\<close>

theorem undo_redo_stacks_witness:
  "path (undo editedModel) = fallbackPath \<and>
   redoStack (undo editedModel) =
     [\<lparr>snap_path = [Move 5 5, Line 40 120, Line 80 0, Close], snap_params = default_params\<rparr>] \<and>
   undo (undo editedModel) = undo editedModel \<and>
   redo (undo editedModel) = editedModel \<and>
   redo editedModel = editedModel"
proof -
  have u: "undoStack editedModel = [] @ [\<lparr>snap_path = fallbackPath, snap_params = default_params\<rparr>,
      \<lparr>snap_path = [Move 5 5, Line 40 120, Line 80 0, Close], snap_params = default_params\<rparr>]"
    by (simp add: editedModel_def)
  have r: "redoStack editedModel = []"
    by (simp add: editedModel_def)
  have u1: "undo editedModel = editedModel\<lparr>path := fallbackPath, params := default_params,
       undoStack := [\<lparr>snap_path = fallbackPath, snap_params = default_params\<rparr>],
       redoStack := [\<lparr>snap_path = [Move 5 5, Line 40 120, Line 80 0, Close],
                      snap_params = default_params\<rparr>]\<rparr>"
    using undo_redo_stacks [of editedModel] u r by simp
  have r1: "redoStack (undo editedModel) =
      [] @ [\<lparr>snap_path = [Move 5 5, Line 40 120, Line 80 0, Close], snap_params = default_params\<rparr>]"
    using u1 by simp
  have l1: "length (undoStack (undo editedModel)) \<le> 1"
    using u1 by simp
  have "redo (undo editedModel) = editedModel"
    using undo_redo_stacks [of "undo editedModel"] r1 u1 by (simp add: editedModel_def)
  moreover have "undo (undo editedModel) = undo editedModel"
    using undo_redo_stacks [of "undo editedModel"] l1 by blast
  moreover have "redo editedModel = editedModel"
    using undo_redo_stacks [of editedModel] r by blast
  ultimately show ?thesis using u1 by simp
qed

lemma hist_inv_saveState: "hist_inv m \<Longrightarrow> hist_inv (saveState m)"
  by (auto simp: hist_inv_def saveState_def Let_def)

lemma hist_inv_undo: "hist_inv m \<Longrightarrow> hist_inv (undo m)"
  by (auto simp: hist_inv_def undo_def load_def Let_def)

lemma hist_inv_redo: "hist_inv m \<Longrightarrow> hist_inv (redo m)"
  by (cases "redoStack m" rule: rev_cases) (auto simp: hist_inv_def redo_def load_def Let_def)

lemma hist_inv_reset: "hist_inv m \<Longrightarrow> hist_inv (reset m)"
  by (auto simp: hist_inv_def reset_def saveState_def Let_def)

lemma hist_inv_path: "hist_inv (m\<lparr>path := p\<rparr>) = hist_inv m"
  by (simp add: hist_inv_def)

lemma hist_inv_generate: "hist_inv m \<Longrightarrow> generate e ch m = Inr m' \<Longrightarrow> hist_inv m'"
  by (auto simp: generate_def Let_def hist_inv_def reset_def saveState_def
      split: option.splits list.splits)

lemma hist_inv_generate_raise: "hist_inv m \<Longrightarrow> generate e ch m = Inl (err, m') \<Longrightarrow> hist_inv m'"
  by (auto simp: generate_def Let_def hist_inv_def split: option.splits list.splits)

lemma hist_inv_paramChange: "hist_inv m \<Longrightarrow> hist_inv (paramChange rnd e name v m)"
  by (auto simp: paramChange_def applyParams_def Let_def hist_inv_def saveState_def)

lemma hist_inv_randomize: "hist_inv m \<Longrightarrow> hist_inv (randomize g seed m)"
  by (auto simp: randomize_def Let_def hist_inv_def saveState_def)

lemma reachable_hist_inv: "reachable m \<Longrightarrow> hist_inv m"
proof (induction rule: reachable.induct)
  case r_new
  show ?case by (simp add: hist_inv_def GlyphModel_def)
next
  case (r_drag m ref x y lock cmds)
  then show ?case by (simp add: hist_inv_path)
qed (auto simp: mouseReleased_def intro: hist_inv_generate hist_inv_generate_raise hist_inv_reset
      hist_inv_paramChange hist_inv_randomize hist_inv_undo hist_inv_redo hist_inv_saveState)

text \<open>Sixty commits on the new model fill the undo stack, and every one is reachable.\<close>

lemma released_n:
  "n \<le> 60 \<Longrightarrow>
   (mouseReleased ^^ n) GlyphModel = GlyphModel\<lparr>undoStack := replicate n blankSnapshot\<rparr>"
proof (induction n)
  case 0
  show ?case by (simp add: GlyphModel_def)
next
  case (Suc n)
  then have ih: "(mouseReleased ^^ n) GlyphModel = GlyphModel\<lparr>undoStack := replicate n blankSnapshot\<rparr>"
    by simp
  have "(mouseReleased ^^ Suc n) GlyphModel = mouseReleased ((mouseReleased ^^ n) GlyphModel)"
    by simp
  also have "\<dots> = mouseReleased (GlyphModel\<lparr>undoStack := replicate n blankSnapshot\<rparr>)"
    by (simp only: ih)
  also have "\<dots> = GlyphModel\<lparr>undoStack := replicate (Suc n) blankSnapshot\<rparr>"
    using Suc.prems
    by (simp add: mouseReleased_def saveState_def Let_def GlyphModel_def copyCommands_def
        blankSnapshot_def replicate_append_same)
  finally show ?case .
qed

lemma reachable_released: "reachable ((mouseReleased ^^ n) GlyphModel)"
  by (induction n) (simp_all add: r_new r_mouseReleased)

text \<open>
  Claim C7. In every reachable model the undo stack has at most 60 entries, also after
  the next commit. A commit (\<^verbatim>\<open>saveState\<close>) empties the redo stack and leaves the
  snapshot of the current path and params on top of the undo stack: appended when there
  was room, and with the oldest entry dropped when the stack was full.
\<close>

theorem history_bounded:
  "reachable m \<Longrightarrow>
     length (undoStack m) \<le> 60 \<and>
     length (undoStack (saveState m)) \<le> 60 \<and>
     redoStack (saveState m) = [] \<and>
     last (undoStack (saveState m)) = \<lparr>snap_path = path m, snap_params = params m\<rparr> \<and>
     (length (undoStack m) < 60 \<longrightarrow>
        undoStack (saveState m) =
          undoStack m @ [\<lparr>snap_path = path m, snap_params = params m\<rparr>]) \<and>
     (length (undoStack m) = 60 \<longrightarrow>
        undoStack (saveState m) =
          tl (undoStack m) @ [\<lparr>snap_path = path m, snap_params = params m\<rparr>])"
proof -
  assume r: "reachable m"
  then have inv: "hist_inv m" by (rule reachable_hist_inv)
  have inv': "hist_inv (saveState m)" using inv by (rule hist_inv_saveState)
  have mh: "maxHist m = 60" using inv by (simp add: hist_inv_def)
  have b: "length (undoStack m) \<le> 60" using inv by (simp add: hist_inv_def)
  have b': "length (undoStack (saveState m)) \<le> 60" using inv' by (simp add: hist_inv_def)
  have rd: "redoStack (saveState m) = []" by (simp add: saveState_def Let_def)
  have lst: "last (undoStack (saveState m)) = \<lparr>snap_path = path m, snap_params = params m\<rparr>"
    using mh by (cases "undoStack m") (simp_all add: saveState_def Let_def copyCommands_def)
  have small: "length (undoStack m) < 60 \<longrightarrow>
        undoStack (saveState m) = undoStack m @ [\<lparr>snap_path = path m, snap_params = params m\<rparr>]"
    using mh by (simp add: saveState_def Let_def copyCommands_def)
  have full: "length (undoStack m) = 60 \<longrightarrow>
        undoStack (saveState m) = tl (undoStack m) @ [\<lparr>snap_path = path m, snap_params = params m\<rparr>]"
    using mh by (cases "undoStack m") (simp_all add: saveState_def Let_def copyCommands_def)
  show ?thesis using b b' rd lst small full by blast
qed

text \<open>With sixty snapshots on the stack, one more commit keeps sixty.\<close>

theorem history_bounded_witness:
  "length (undoStack ((mouseReleased ^^ 60) GlyphModel)) = 60 \<and>
   length (undoStack (saveState ((mouseReleased ^^ 60) GlyphModel))) = 60 \<and>
   redoStack (saveState ((mouseReleased ^^ 60) GlyphModel)) = []"
proof -
  have l: "length (undoStack ((mouseReleased ^^ 60) GlyphModel)) = 60"
    using released_n [of 60] by simp
  then have "undoStack ((mouseReleased ^^ 60) GlyphModel) \<noteq> []"
    by auto
  then have t: "length (tl (undoStack ((mouseReleased ^^ 60) GlyphModel))) = 59"
    using l by simp
  show ?thesis
    using history_bounded [OF reachable_released [of 60]] l t by simp
qed

text \<open>
  Claim C9. \<^verbatim>\<open>generate\<close> with a missing or empty character returns the model as it
  was: original path, path, character, params and both stacks.
\<close>

theorem generate_falsy_unchanged:
  "ch = None \<or> ch = Some [] \<Longrightarrow> generate e ch m = Inr m"
  by (auto simp: generate_def)

theorem generate_falsy_unchanged_witness:
  "generate noFont None editedModel = Inr editedModel \<and>
   generate noFont (Some []) editedModel = Inr editedModel"
  using generate_falsy_unchanged [of None noFont editedModel]
        generate_falsy_unchanged [of "Some []" noFont editedModel]
  by simp

subsection \<open>Transform parameters\<close>

lemma scaleCoord_exact_unit: "scaleCoord exact b 1 v = v"
  by (simp add: scaleCoord_def exact_def)

lemma scaleCoord_zero_unit: "rnd v = v \<Longrightarrow> scaleCoord rnd 0 1 v = v"
  by (simp add: scaleCoord_def)

lemma scaleCommand_exact_unit: "scaleCommand exact bb 1 1 c = c"
  by (cases c) (simp_all add: scaleCoord_exact_unit)

lemma scaleCommand_zero_unit:
  "bb_x bb = 0 \<Longrightarrow> bb_y bb = 0 \<Longrightarrow> inFormat rnd c \<Longrightarrow> scaleCommand rnd bb 1 1 c = c"
  by (cases c) (simp_all add: inFormat_def scaleCoord_zero_unit)

lemma map_scaleCommand_zero_unit:
  "bb_x bb = 0 \<Longrightarrow> bb_y bb = 0 \<Longrightarrow> list_all (inFormat rnd) cmds \<Longrightarrow>
   map (scaleCommand rnd bb 1 1) cmds = cmds"
  by (induction cmds) (simp_all add: scaleCommand_zero_unit)

lemma map_scaleCommand_exact_unit: "map (scaleCommand exact bb 1 1) cmds = cmds"
  by (induction cmds) (simp_all add: scaleCommand_exact_unit)

lemma cmdType_slant: "cmdType (slantCommand rnd t c) = cmdType c"
  by (cases c) simp_all

lemma cmdType_scale: "cmdType (scaleCommand rnd bb w h c) = cmdType c"
  by (cases c) simp_all

lemma cmdType_round: "cmdType (roundCommand rnd t c) = cmdType c"
  by (cases c) simp_all

lemma slantedScaled_types: "map cmdType (slantedScaled rnd e m) = map cmdType (originalPath m)"
  by (simp add: slantedScaled_def Let_def copyCommands_def comp_def cmdType_slant cmdType_scale)

lemma applyParams_types:
  "map cmdType (path (applyParams rnd e m)) = map cmdType (originalPath m)"
  by (simp add: applyParams_def Let_def path_saveState comp_def cmdType_round slantedScaled_types)

lemma applyParams_unit_path:
  assumes "width (params m) = 1" "height (params m) = 1" "slant (params m) = 0"
    "roundness (params m) = 0"
  shows "path (applyParams rnd e m) =
     (if 0 < bb_w (bboxOf e (originalPath m)) \<and> 0 < bb_h (bboxOf e (originalPath m))
      then map (scaleCommand rnd (bboxOf e (originalPath m)) 1 1) (originalPath m)
      else originalPath m)"
  using assms
  by (simp add: applyParams_def slantedScaled_def Let_def path_saveState copyCommands_def)

text \<open>
  Claim C4, as amended. With width 1, height 1, slant 0 and roundness 0, whatever the
  weight, \<^verbatim>\<open>applyParams\<close> keeps the type of every command. When the bounding box has
  positive width and height it still runs the scale step, which replaces every coordinate
  \<open>c\<close> by \<open>(c - b) * 1 + b\<close>, each operation rounded, \<open>b\<close> being the origin of the box on
  that axis; otherwise it leaves the original path. The result is the original path,
  coordinate for coordinate, in exact arithmetic, and under any rounding when the box
  origin is \<open>(0, 0)\<close> and the coordinates are values of the format.
\<close>

theorem applyParams_unit_params:
  assumes "width (params m) = 1" "height (params m) = 1" "slant (params m) = 0"
    "roundness (params m) = 0"
  shows "map cmdType (path (applyParams rnd e m)) = map cmdType (originalPath m) \<and>
     path (applyParams rnd e m) =
       (if 0 < bb_w (bboxOf e (originalPath m)) \<and> 0 < bb_h (bboxOf e (originalPath m))
        then map (scaleCommand rnd (bboxOf e (originalPath m)) 1 1) (originalPath m)
        else originalPath m) \<and>
     path (applyParams exact e m) = originalPath m \<and>
     (bb_x (bboxOf e (originalPath m)) = 0 \<and> bb_y (bboxOf e (originalPath m)) = 0 \<and>
      list_all (inFormat rnd) (originalPath m) \<longrightarrow>
        path (applyParams rnd e m) = originalPath m)"
proof -
  let ?bb = "bboxOf e (originalPath m)"
  have types: "map cmdType (path (applyParams rnd e m)) = map cmdType (originalPath m)"
    by (rule applyParams_types)
  have scaled: "path (applyParams rnd e m) =
       (if 0 < bb_w ?bb \<and> 0 < bb_h ?bb
        then map (scaleCommand rnd ?bb 1 1) (originalPath m) else originalPath m)"
    using assms by (rule applyParams_unit_path)
  have ex: "path (applyParams exact e m) = originalPath m"
    using applyParams_unit_path [OF assms, of exact e]
    by (simp add: map_scaleCommand_exact_unit)
  have zero: "bb_x ?bb = 0 \<and> bb_y ?bb = 0 \<and> list_all (inFormat rnd) (originalPath m) \<longrightarrow>
        path (applyParams rnd e m) = originalPath m"
    using scaled by (simp add: map_scaleCommand_zero_unit)
  show ?thesis using types scaled ex zero by blast
qed

text \<open>
  The fallback outline under binary64 rounding: its box starts at \<open>(0, 0)\<close> and its
  coordinates are small integers, so it comes back as it was.
\<close>

theorem applyParams_unit_params_witness:
  "path (applyParams round64 noFont (editedModel\<lparr>params := default_params\<lparr>weight := 30\<rparr>\<rparr>)) =
     [Move 0 0, Line 40 120, Line 80 0, Close]"
proof -
  let ?m = "editedModel\<lparr>params := default_params\<lparr>weight := 30\<rparr>\<rparr>"
  have p: "width (params ?m) = 1" "height (params ?m) = 1" "slant (params ?m) = 0"
    "roundness (params ?m) = 0"
    by (simp_all add: default_params_def)
  have o: "originalPath ?m = [Move 0 0, Line 40 120, Line 80 0, Close]"
    by (simp add: editedModel_def fallbackPath_def)
  have b: "bb_x (bboxOf noFont (originalPath ?m)) = 0 \<and> bb_y (bboxOf noFont (originalPath ?m)) = 0"
    unfolding o by (simp add: bboxOf_def noFont_def spec_getBoundingBox_def copyCommands_def)
  have f: "list_all (inFormat round64) (originalPath ?m)"
    unfolding o by (simp add: inFormat_def round64_int)
  have "path (applyParams round64 noFont ?m) = originalPath ?m"
    using applyParams_unit_params [OF p, of round64 noFont] b f by blast
  then show ?thesis by (simp only: o)
qed

text \<open>
  A triangle with corners at \<^verbatim>\<open>0.2\<close> and \<^verbatim>\<open>0.9\<close>: the box starts at \<^verbatim>\<open>0.2\<close>, and
  \<^verbatim>\<open>(0.9 - 0.2) * 1 + 0.2\<close> is \<^verbatim>\<open>0.8999999999999999\<close> in binary64, the difference
  \<^verbatim>\<open>0.9 - 0.2\<close> and the sum both falling halfway between two values.
\<close>

theorem applyParams_rounds_counterexample:
  "width (params triangleModel) = 1 \<and> height (params triangleModel) = 1 \<and>
   slant (params triangleModel) = 0 \<and> roundness (params triangleModel) = 0 \<and>
   originalPath triangleModel = [Move d0_2 d0_2, Line d0_9 d0_9, Line d0_9 d0_2, Close] \<and>
   path (applyParams round64 noFont triangleModel) =
     [Move d0_2 d0_2, Line d0_8999999999999999 d0_8999999999999999,
      Line d0_8999999999999999 d0_2, Close] \<and>
   path (applyParams round64 noFont triangleModel) \<noteq> originalPath triangleModel"
proof -
  have p: "width (params triangleModel) = 1" "height (params triangleModel) = 1"
    "slant (params triangleModel) = 0" "roundness (params triangleModel) = 0"
    by (simp_all add: triangleModel_def GlyphModel_def default_params_def)
  have o: "originalPath triangleModel = [Move d0_2 d0_2, Line d0_9 d0_9, Line d0_9 d0_2, Close]"
    by (simp add: triangleModel_def)
  have bb: "bboxOf noFont [Move d0_2 d0_2, Line d0_9 d0_9, Line d0_9 d0_2, Close] =
      \<lparr>bb_x = d0_2, bb_y = d0_2, bb_w = d0_9 - d0_2, bb_h = d0_9 - d0_2\<rparr>"
    using d0_order
    by (simp add: bboxOf_def noFont_def spec_getBoundingBox_def copyCommands_def)
  have a: "scaleCoord round64 d0_2 1 d0_2 = d0_2"
    by (simp add: scaleCoord_def round64_zero round64_tenths)
  have c: "scaleCoord round64 d0_2 1 d0_9 = d0_8999999999999999"
    by (simp add: scaleCoord_def round64_tenths)
  have r: "path (applyParams round64 noFont triangleModel) =
     [Move d0_2 d0_2, Line d0_8999999999999999 d0_8999999999999999,
      Line d0_8999999999999999 d0_2, Close]"
    using applyParams_unit_path [OF p, of round64 noFont] d0_order
    by (simp add: bb o a c)
  show ?thesis using p o r d0_order by simp
qed

lemma lerp_one: "lerp rnd a b 1 = rnd (rnd (rnd (b - a)) + a)"
  by (simp add: lerp_def)

lemma lerp_exact_one: "lerp exact a b 1 = b"
  by (simp add: lerp_def exact_def)

lemma collapsed_round_exact: "collapsed (roundCommand exact 1 c)"
  by (cases c) (simp_all add: lerp_exact_one)

lemma applyParams_round_path:
  "roundness (params m) = 1 \<Longrightarrow>
   path (applyParams rnd e m) = map (roundCommand rnd 1) (slantedScaled rnd e m)"
  by (simp add: applyParams_def Let_def path_saveState)

text \<open>
  Claim C5, as amended. With roundness 1, whatever the other parameters,
  \<^verbatim>\<open>applyParams\<close> keeps the type of every command and applies the interpolation with
  factor 1 to every command of the slanted and scaled path: a control coordinate \<open>a\<close> of
  a cubic or a quadratic, with \<open>b\<close> the coordinate of the end anchor on the same axis,
  becomes \<open>(b - a) + a\<close>, each operation rounded. In exact arithmetic that is \<open>b\<close>: every
  control point lies on its end anchor.
\<close>

theorem roundness_one_interpolates:
  assumes "roundness (params m) = 1"
  shows "map cmdType (path (applyParams rnd e m)) = map cmdType (originalPath m) \<and>
     path (applyParams rnd e m) = map (roundCommand rnd 1) (slantedScaled rnd e m) \<and>
     roundCommand rnd 1 (Cubic x1 y1 x2 y2 x y) =
       Cubic (rnd (rnd (rnd (x - x1)) + x1)) (rnd (rnd (rnd (y - y1)) + y1))
             (rnd (rnd (rnd (x - x2)) + x2)) (rnd (rnd (rnd (y - y2)) + y2)) x y \<and>
     roundCommand rnd 1 (Quadratic x1 y1 x y) =
       Quadratic (rnd (rnd (rnd (x - x1)) + x1)) (rnd (rnd (rnd (y - y1)) + y1)) x y \<and>
     list_all collapsed (path (applyParams exact e m))"
proof -
  have types: "map cmdType (path (applyParams rnd e m)) = map cmdType (originalPath m)"
    by (rule applyParams_types)
  have p: "path (applyParams rnd e m) = map (roundCommand rnd 1) (slantedScaled rnd e m)"
    using assms by (rule applyParams_round_path)
  have c: "roundCommand rnd 1 (Cubic x1 y1 x2 y2 x y) =
       Cubic (rnd (rnd (rnd (x - x1)) + x1)) (rnd (rnd (rnd (y - y1)) + y1))
             (rnd (rnd (rnd (x - x2)) + x2)) (rnd (rnd (rnd (y - y2)) + y2)) x y"
    by (simp add: lerp_one)
  have q: "roundCommand rnd 1 (Quadratic x1 y1 x y) =
       Quadratic (rnd (rnd (rnd (x - x1)) + x1)) (rnd (rnd (rnd (y - y1)) + y1)) x y"
    by (simp add: lerp_one)
  have "list_all collapsed (map (roundCommand exact 1) (slantedScaled exact e m))"
    by (simp add: list_all_iff collapsed_round_exact)
  then have ex: "list_all collapsed (path (applyParams exact e m))"
    using assms by (simp only: applyParams_round_path)
  show ?thesis using types p c q ex by blast
qed

text \<open>
  A path with integer coordinates at roundness 1: under binary64 rounding the controls
  land on the anchors, as they do in exact arithmetic.
\<close>

theorem roundness_one_interpolates_witness:
  "path (applyParams round64 noFont curvyModel) =
     [Move 0 0, Cubic 30 0 30 0 30 0, Quadratic 3 4 3 4, Close] \<and>
   list_all collapsed (path (applyParams exact noFont curvyModel))"
proof -
  have r: "roundness (params curvyModel) = 1"
    by (simp add: curvyModel_def)
  have ss: "slantedScaled round64 noFont curvyModel =
      [Move 0 0, Cubic 10 0 20 0 30 0, Quadratic 1 2 3 4, Close]"
    by (simp add: slantedScaled_def curvyModel_def noFont_def bboxOf_def spec_getBoundingBox_def
        default_params_def copyCommands_def Let_def scaleCoord_def round64_int)
  note t = roundness_one_interpolates [OF r, of round64 noFont]
  have "path (applyParams round64 noFont curvyModel) =
      map (roundCommand round64 1) (slantedScaled round64 noFont curvyModel)"
    using t by blast
  then have "path (applyParams round64 noFont curvyModel) =
     [Move 0 0, Cubic 30 0 30 0 30 0, Quadratic 3 4 3 4, Close]"
    by (simp add: ss lerp_def round64_int)
  moreover have "list_all collapsed (path (applyParams exact noFont curvyModel))"
    using t by blast
  ultimately show ?thesis by blast
qed

text \<open>
  A flat cubic ending at \<^verbatim>\<open>0.9\<close> with its first control at \<^verbatim>\<open>0.2\<close>: the box has no
  height, the scale step is skipped, and the control goes to \<^verbatim>\<open>0.8999999999999999\<close>, next
  to the anchor and not on it.
\<close>

theorem roundness_one_counterexample:
  "roundness (params flatCurveModel) = 1 \<and>
   originalPath flatCurveModel = [Move 0 0, Cubic d0_2 0 0 0 d0_9 0] \<and>
   path (applyParams round64 noFont flatCurveModel) =
     [Move 0 0, Cubic d0_8999999999999999 0 d0_9 0 d0_9 0] \<and>
   \<not> list_all collapsed (path (applyParams round64 noFont flatCurveModel))"
proof -
  have r: "roundness (params flatCurveModel) = 1"
    and o: "originalPath flatCurveModel = [Move 0 0, Cubic d0_2 0 0 0 d0_9 0]"
    by (simp_all add: flatCurveModel_def)
  have ss: "slantedScaled round64 noFont flatCurveModel = [Move 0 0, Cubic d0_2 0 0 0 d0_9 0]"
    using d0_order
    by (simp add: slantedScaled_def flatCurveModel_def noFont_def bboxOf_def
        spec_getBoundingBox_def default_params_def copyCommands_def Let_def GlyphModel_def)
  have l1: "lerp round64 d0_2 d0_9 1 = d0_8999999999999999"
    by (simp add: lerp_def round64_tenths)
  have l2: "lerp round64 0 d0_9 1 = d0_9"
    by (simp add: lerp_def round64_tenths)
  have l3: "lerp round64 0 0 1 = 0"
    by (simp add: lerp_def round64_zero)
  have p: "path (applyParams round64 noFont flatCurveModel) =
     [Move 0 0, Cubic d0_8999999999999999 0 d0_9 0 d0_9 0]"
    using applyParams_round_path [OF r, of round64 noFont] by (simp add: ss l1 l2 l3)
  show ?thesis using r o p d0_order by simp
qed

text \<open>
  Claim C8. With the library loaded and no font, \<^verbatim>\<open>generate\<close> on a character installs
  the fallback outline Move(0,0), Line(40,120), Line(80,0), Close as original and working
  path, and \<^verbatim>\<open>bboxOf\<close> of it is the box at (0, 0) of width 80 and height 120. The
  library's bounding box is the one the spec describes.
\<close>

theorem fallback_bbox:
  "\<exists>m'. generate noFont (Some (c # cs)) m = Inr m' \<and>
     originalPath m' = [Move 0 0, Line 40 120, Line 80 0, Close] \<and>
     path m' = [Move 0 0, Line 40 120, Line 80 0, Close] \<and>
     bboxOf noFont (path m') = \<lparr>bb_x = 0, bb_y = 0, bb_w = 80, bb_h = 120\<rparr>"
  by (simp add: generate_def noFont_def reset_def path_saveState originalPath_saveState
      copyCommands_def fallbackPath_def bboxOf_def spec_getBoundingBox_def Let_def)

subsection \<open>Randomize\<close>











subsection \<open>Dragging an anchor\<close>

lemma setPoint_anchor:
  assumes i: "i < length cmds" and a: "anchorOf (cmds ! i) = Some (ax, ay)"
  shows "setPoint rnd cmds \<lparr>index = i, type = Anchor\<rparr> x y lock =
     Inr (case nextCurve cmds i of
            None \<Rightarrow> cmds[i := moveAnchor rnd x y (rnd (x - ax)) (rnd (y - ay)) (cmds ! i)]
          | Some ni \<Rightarrow> cmds[i := moveAnchor rnd x y (rnd (x - ax)) (rnd (y - ay)) (cmds ! i),
                            ni := shiftC1 rnd (rnd (x - ax)) (rnd (y - ay)) (cmds ! ni)])"
proof (cases "nextCurve cmds i")
  case None
  then show ?thesis using i a by (simp add: setPoint_def Let_def nextCurve_update)
next
  case (Some ni)
  then have "i < ni" using nextCurve_Some by blast
  then show ?thesis using i a Some by (simp add: setPoint_def Let_def nextCurve_update)
qed

lemma anchorOf_moveAnchor:
  "anchorOf c = Some (ax, ay) \<Longrightarrow> anchorOf (moveAnchor rnd x y dx dy c) = Some (x, y)"
  by (cases c) simp_all

text \<open>
  Claim C1, as amended. Let the anchor of command \<open>i\<close> be at \<open>(ax, ay)\<close>, as \<^verbatim>\<open>getPoint\<close>
  reads it, and be set to \<open>(x, y)\<close>. Then \<^verbatim>\<open>setPoint\<close> succeeds and the anchor is at
  \<open>(x, y)\<close>. The difference \<open>(x - ax, y - ay)\<close> is computed once, rounded, and added, the sum
  rounded, to the second control point of the edited command when that is a cubic. The
  commands before \<open>i\<close> are as they were. When the command after \<open>i\<close> is a cubic, the curve
  that leaves the anchor, its first control point receives the same computed difference,
  and no command other than these two has changed. In exact arithmetic both controls
  move by exactly the delta of the anchor. Nothing is said of the later commands when
  the command after \<open>i\<close> is not a cubic.
\<close>

theorem anchor_drag_moves_cubic_controls:
  assumes "getPoint cmds \<lparr>index = i, type = Anchor\<rparr> = Inr (ax, ay)"
  shows "\<exists>cmds'. setPoint rnd cmds \<lparr>index = i, type = Anchor\<rparr> x y lock = Inr cmds' \<and>
     length cmds' = length cmds \<and>
     anchorOf (cmds' ! i) = Some (x, y) \<and>
     (\<forall>x1 y1 x2 y2. cmds ! i = Cubic x1 y1 x2 y2 ax ay \<longrightarrow>
        cmds' ! i = Cubic x1 y1 (rnd (x2 + rnd (x - ax))) (rnd (y2 + rnd (y - ay))) x y) \<and>
     (\<forall>k < i. cmds' ! k = cmds ! k) \<and>
     (\<forall>x1 y1 x2 y2 ex ey.
        Suc i < length cmds \<and> cmds ! Suc i = Cubic x1 y1 x2 y2 ex ey \<longrightarrow>
        cmds' ! Suc i = Cubic (rnd (x1 + rnd (x - ax))) (rnd (y1 + rnd (y - ay))) x2 y2 ex ey \<and>
        (\<forall>k. k \<noteq> i \<and> k \<noteq> Suc i \<longrightarrow> cmds' ! k = cmds ! k))"
proof -
  let ?dx = "rnd (x - ax)" and ?dy = "rnd (y - ay)"
  let ?A = "cmds[i := moveAnchor rnd x y ?dx ?dy (cmds ! i)]"
  define R where "R = (case nextCurve cmds i of None \<Rightarrow> ?A
     | Some ni \<Rightarrow> ?A[ni := shiftC1 rnd ?dx ?dy (cmds ! ni)])"
  have i: "i < length cmds" and a: "anchorOf (cmds ! i) = Some (ax, ay)"
    using assms by (simp_all add: getPoint_anchor)
  have s: "setPoint rnd cmds \<lparr>index = i, type = Anchor\<rparr> x y lock = Inr R"
    unfolding R_def using i a by (rule setPoint_anchor)
  have later: "\<And>ni. nextCurve cmds i = Some ni \<Longrightarrow> i < ni"
    using nextCurve_Some by blast
  have len: "length R = length cmds"
    by (simp add: R_def split: option.split)
  have at_i: "R ! i = moveAnchor rnd x y ?dx ?dy (cmds ! i)"
    using i later by (auto simp: R_def split: option.split)
  have anchor: "anchorOf (R ! i) = Some (x, y)"
    unfolding at_i using a by (rule anchorOf_moveAnchor)
  have cubic: "\<forall>x1 y1 x2 y2. cmds ! i = Cubic x1 y1 x2 y2 ax ay \<longrightarrow>
        R ! i = Cubic x1 y1 (rnd (x2 + ?dx)) (rnd (y2 + ?dy)) x y"
    unfolding at_i by simp
  have before: "\<forall>k < i. R ! k = cmds ! k"
    using later by (auto simp: R_def split: option.split)
  have next_cubic: "\<forall>x1 y1 x2 y2 ex ey.
        Suc i < length cmds \<and> cmds ! Suc i = Cubic x1 y1 x2 y2 ex ey \<longrightarrow>
        R ! Suc i = Cubic (rnd (x1 + ?dx)) (rnd (y1 + ?dy)) x2 y2 ex ey \<and>
        (\<forall>k. k \<noteq> i \<and> k \<noteq> Suc i \<longrightarrow> R ! k = cmds ! k)"
  proof (intro allI impI)
    fix x1 y1 x2 y2 ex ey
    assume h: "Suc i < length cmds \<and> cmds ! Suc i = Cubic x1 y1 x2 y2 ex ey"
    then have "nextCurve cmds i = Some (Suc i)" by (simp add: nextCurve_adjacent)
    then have r: "R = ?A[Suc i := shiftC1 rnd ?dx ?dy (cmds ! Suc i)]"
      by (simp add: R_def)
    show "R ! Suc i = Cubic (rnd (x1 + ?dx)) (rnd (y1 + ?dy)) x2 y2 ex ey \<and>
        (\<forall>k. k \<noteq> i \<and> k \<noteq> Suc i \<longrightarrow> R ! k = cmds ! k)"
      unfolding r using h by simp
  qed
  show ?thesis using s len anchor cubic before next_cubic by blast
qed

text \<open>
  The shared anchor \<open>(30, 0)\<close> of the two curves set to \<open>(35, 7)\<close>: the second control of
  the first curve and the first control of the second curve move by \<open>(5, 7)\<close>.
\<close>

theorem anchor_drag_moves_cubic_controls_witness:
  "getPoint twoCurves \<lparr>index = 1, type = Anchor\<rparr> = Inr (30, 0) \<and>
   (\<exists>cmds'. setPoint round64 twoCurves \<lparr>index = 1, type = Anchor\<rparr> 35 7 False = Inr cmds' \<and>
      cmds' ! 0 = Move 0 0 \<and>
      cmds' ! 1 = Cubic 10 0 25 7 35 7 \<and>
      cmds' ! Suc 1 = Cubic 45 7 50 0 60 0)"
proof -
  have g: "getPoint twoCurves \<lparr>index = 1, type = Anchor\<rparr> = Inr (30, 0)"
    by (simp add: getPoint_def twoCurves_def)
  have c1: "twoCurves ! 1 = Cubic 10 0 20 0 30 0"
    and c2: "Suc 1 < length twoCurves \<and> twoCurves ! Suc 1 = Cubic 40 0 50 0 60 0"
    and c0: "twoCurves ! 0 = Move 0 0"
    by (simp_all add: twoCurves_def)
  have r5: "round64 (35 - 30) = 5" and r7: "round64 (7 - 0) = 7"
    and r25: "round64 (20 + 5) = 25" and r07: "round64 (0 + 7) = 7"
    and r45: "round64 (40 + 5) = 45"
    by (simp_all add: round64_int)
  obtain cmds' where s: "setPoint round64 twoCurves \<lparr>index = 1, type = Anchor\<rparr> 35 7 False = Inr cmds'"
    and e1: "\<forall>x1 y1 x2 y2. twoCurves ! 1 = Cubic x1 y1 x2 y2 30 0 \<longrightarrow>
        cmds' ! 1 = Cubic x1 y1 (round64 (x2 + round64 (35 - 30))) (round64 (y2 + round64 (7 - 0))) 35 7"
    and e2: "\<forall>x1 y1 x2 y2 ex ey.
        Suc 1 < length twoCurves \<and> twoCurves ! Suc 1 = Cubic x1 y1 x2 y2 ex ey \<longrightarrow>
        cmds' ! Suc 1 = Cubic (round64 (x1 + round64 (35 - 30))) (round64 (y1 + round64 (7 - 0))) x2 y2 ex ey \<and>
        (\<forall>k. k \<noteq> 1 \<and> k \<noteq> Suc 1 \<longrightarrow> cmds' ! k = twoCurves ! k)"
    and e3: "\<forall>k < 1. cmds' ! k = twoCurves ! k"
    using anchor_drag_moves_cubic_controls [OF g, of round64 35 7 False]
    by (elim exE conjE) (rule that, assumption+)
  have "cmds' ! 1 = Cubic 10 0 (round64 (20 + round64 (35 - 30))) (round64 (0 + round64 (7 - 0))) 35 7"
    using e1 c1 by blast
  then have a1: "cmds' ! 1 = Cubic 10 0 25 7 35 7"
    by (simp only: r5 r7 r25 r07)
  have "cmds' ! Suc 1 = Cubic (round64 (40 + round64 (35 - 30))) (round64 (0 + round64 (7 - 0))) 50 0 60 0"
    using e2 c2 by blast
  then have a2: "cmds' ! Suc 1 = Cubic 45 7 50 0 60 0"
    by (simp only: r5 r7 r45 r07)
  have a0: "cmds' ! 0 = Move 0 0" using e3 c0 by simp
  show ?thesis using g s a0 a1 a2 by blast
qed

lemma nextCurve_mixedPath: "nextCurve mixedPath 1 = Some 5"
proof -
  have "firstCubicAfter mixedPath 1 5"
    unfolding firstCubicAfter_def
  proof (intro conjI allI impI)
    fix k :: nat assume "1 < k \<and> k < 5"
    then have "k = 2 \<or> k = 3 \<or> k = 4" by auto
    then show "\<not> isCubic (mixedPath ! k)" by (auto simp: mixedPath_def)
  qed (simp_all add: mixedPath_def)
  then show ?thesis by (simp add: nextCurve_firstCubicAfter)
qed

text \<open>
  The anchor \<open>(10, 0)\<close> of a line that starts a quadratic, moved to \<open>(11, 1)\<close>. The control
  \<open>(15, 5)\<close> of the quadratic, the control next to the anchor, stays; the first control
  of the cubic in the other subpath, which starts at \<open>(100, 100)\<close>, moves by \<open>(1, 1)\<close>.
\<close>

theorem anchor_drag_counterexample:
  "setPoint round64 mixedPath \<lparr>index = 1, type = Anchor\<rparr> 11 1 False =
     Inr [Move 0 0, Line 11 1, Quadratic 15 5 20 0, Close,
          Move 100 100, Cubic 111 101 120 100 130 100]"
proof -
  have i: "1 < length mixedPath" and a: "anchorOf (mixedPath ! 1) = Some (10, 0)"
    by (simp_all add: mixedPath_def)
  show ?thesis
    unfolding setPoint_anchor [OF i a] nextCurve_mixedPath
    by (simp add: mixedPath_def round64_int)
qed

subsection \<open>Collinear lock\<close>

lemma hypot_nonneg_exact: "0 \<le> hypot exact a b"
  by (simp add: hypot_def exact_def)

lemma hypot_zero_iff_exact: "hypot exact a b = 0 \<longleftrightarrow> a = 0 \<and> b = 0"
  by (simp add: hypot_def exact_def sum_power2_eq_zero_iff)

lemma lockLen_nonzero: "lockLen rnd dx dy \<noteq> 0"
  by (simp add: lockLen_def)



lemma divide_js_lockLen:
  "divide_js rnd d (lockLen rnd dx dy) = Some (rnd (d / lockLen rnd dx dy))"
  by (simp add: divide_js_def lockLen_nonzero)

lemma mirrorOpposite_cubics:
  assumes "cmds ! ai = Cubic a1 b1 a2 b2 ax ay" and "cmds ! oi = Cubic ox1 oy1 ox2 oy2 ox oy"
  shows "mirrorOpposite rnd cmds ai oi key x y =
     (let len = lockLen rnd (rnd (x - ax)) (rnd (y - ay));
          ol = dist_p5 rnd ax ay (if key = C1 then ox1 else ox2) (if key = C1 then oy1 else oy2)
      in if key = C1
         then Inr (cmds[oi := Cubic (mirrored rnd ax x len ol) (mirrored rnd ay y len ol) ox2 oy2 ox oy])
         else Inr (cmds[oi := Cubic ox1 oy1 (mirrored rnd ax x len ol) (mirrored rnd ay y len ol) ox oy]))"
  using assms by (simp add: mirrorOpposite_def Let_def divide_js_lockLen mirrored_def)

text \<open>
  What \<^verbatim>\<open>setPoint\<close> computes under the lock. Dragging \<^verbatim>\<open>c2\<close> of command \<open>i\<close> takes the end
  of command \<open>i\<close> as anchor and \<^verbatim>\<open>c1\<close> of the next cubic as opposite control.
\<close>

lemma setPoint_c2_lock:
  assumes i: "i < length cmds" and c: "cmds ! i = Cubic x1 y1 x2 y2 ax ay"
    and n: "nextCurve cmds i = Some ni" and o: "cmds ! ni = Cubic ox1 oy1 ox2 oy2 ox oy"
  shows "setPoint rnd cmds \<lparr>index = i, type = C2\<rparr> x y True =
     Inr (cmds[i := Cubic x1 y1 x y ax ay,
               ni := Cubic (mirrored rnd ax x (lockLen rnd (rnd (x - ax)) (rnd (y - ay)))
                              (dist_p5 rnd ax ay ox1 oy1))
                           (mirrored rnd ay y (lockLen rnd (rnd (x - ax)) (rnd (y - ay)))
                              (dist_p5 rnd ax ay ox1 oy1))
                           ox2 oy2 ox oy])"
proof -
  have lt: "i < ni" "ni < length cmds" using n nextCurve_Some by blast+
  let ?cmds1 = "cmds[i := Cubic x1 y1 x y ax ay]"
  have a: "?cmds1 ! i = Cubic x1 y1 x y ax ay" using i by simp
  have b: "?cmds1 ! ni = Cubic ox1 oy1 ox2 oy2 ox oy" using lt o by simp
  show ?thesis using i c n
    by (simp add: setPoint_def Let_def nextCurve_update mirrorOpposite_cubics [OF a b])
qed

text \<open>
  Dragging \<^verbatim>\<open>c1\<close> of command \<open>i\<close>: \<^verbatim>\<open>prevCurve(i)\<close> is \<open>i\<close> itself, so the anchor is the end
  of the same command and the opposite control its own \<^verbatim>\<open>c2\<close>.
\<close>

lemma setPoint_c1_lock:
  assumes i: "i < length cmds" and c: "cmds ! i = Cubic x1 y1 x2 y2 ax ay"
  shows "setPoint rnd cmds \<lparr>index = i, type = C1\<rparr> x y True =
     Inr (cmds[i := Cubic x y
                 (mirrored rnd ax x (lockLen rnd (rnd (x - ax)) (rnd (y - ay)))
                    (dist_p5 rnd ax ay x2 y2))
                 (mirrored rnd ay y (lockLen rnd (rnd (x - ax)) (rnd (y - ay)))
                    (dist_p5 rnd ax ay x2 y2))
                 ax ay])"
proof -
  let ?cmds1 = "cmds[i := Cubic x y x2 y2 ax ay]"
  have p: "prevCurve ?cmds1 i = Inr (Some i)"
    using i by (simp add: prevCurve_self)
  have a: "?cmds1 ! i = Cubic x y x2 y2 ax ay" using i by simp
  show ?thesis using i c
    by (simp add: setPoint_def Let_def p mirrorOpposite_cubics [OF a a])
qed

lemma dist_p5_offset_exact: "dist_p5 exact ax ay (ax - u) (ay - v) = sqrt (u\<^sup>2 + v\<^sup>2)"
  by (simp add: dist_p5_def hypot_def exact_def)

lemma lockLen_hypot_exact:
  "dx \<noteq> 0 \<or> dy \<noteq> 0 \<Longrightarrow> lockLen exact dx dy = hypot exact dx dy"
  by (auto simp: lockLen_def hypot_zero_iff_exact)

lemma mirrored_exact: "mirrored exact a v len ol = a - (v - a) / len * ol"
  by (simp add: mirrored_def exact_def)

lemma mirror_distance:
  assumes "dx \<noteq> 0 \<or> dy \<noteq> 0" and "0 \<le> ol"
  shows "dist_p5 exact ax ay (ax - dx / lockLen exact dx dy * ol)
           (ay - dy / lockLen exact dx dy * ol) = ol"
proof -
  let ?h = "hypot exact dx dy"
  have h: "?h \<noteq> 0" using assms(1) by (simp add: hypot_zero_iff_exact)
  have l: "lockLen exact dx dy = ?h" using assms(1) by (rule lockLen_hypot_exact)
  have sq: "?h\<^sup>2 = dx\<^sup>2 + dy\<^sup>2" by (simp add: hypot_def exact_def)
  have "(dx / ?h * ol)\<^sup>2 + (dy / ?h * ol)\<^sup>2 = (dx\<^sup>2 + dy\<^sup>2) / ?h\<^sup>2 * ol\<^sup>2"
    by (simp add: power_mult_distrib power_divide add_divide_distrib distrib_right)
  also have "\<dots> = ol\<^sup>2" using h by (simp add: sq [symmetric])
  finally have e: "(dx / ?h * ol)\<^sup>2 + (dy / ?h * ol)\<^sup>2 = ol\<^sup>2" .
  have "dist_p5 exact ax ay (ax - dx / lockLen exact dx dy * ol)
          (ay - dy / lockLen exact dx dy * ol)
        = sqrt ((dx / ?h * ol)\<^sup>2 + (dy / ?h * ol)\<^sup>2)"
    by (simp only: l dist_p5_offset_exact)
  also have "\<dots> = ol" using e assms(2) by simp
  finally show ?thesis .
qed

text \<open>
  The \<^verbatim>\<open>c2\<close> path mirrors as intended. When the command after \<open>i\<close> is a cubic, its \<^verbatim>\<open>c1\<close>
  starts at the end anchor of \<open>i\<close>, the anchor the two controls share. In exact
  arithmetic, dragging \<^verbatim>\<open>c2\<close> of \<open>i\<close> to a point other than that anchor puts that \<^verbatim>\<open>c1\<close> at
  its old distance from the anchor, on the ray opposite to the dragged control.
\<close>

lemma setPoint_c2_lock_mirrors:
  assumes i: "Suc i < length cmds" and c: "cmds ! i = Cubic x1 y1 x2 y2 ax ay"
    and o: "cmds ! Suc i = Cubic ox1 oy1 ox2 oy2 ox oy"
    and d: "x \<noteq> ax \<or> y \<noteq> ay"
  shows "\<exists>nx ny t. setPoint exact cmds \<lparr>index = i, type = C2\<rparr> x y True =
           Inr (cmds[i := Cubic x1 y1 x y ax ay, Suc i := Cubic nx ny ox2 oy2 ox oy]) \<and>
         dist_p5 exact ax ay nx ny = dist_p5 exact ax ay ox1 oy1 \<and>
         0 \<le> t \<and> nx - ax = - t * (x - ax) \<and> ny - ay = - t * (y - ay)"
proof -
  let ?ol = "dist_p5 exact ax ay ox1 oy1"
  let ?len = "lockLen exact (x - ax) (y - ay)"
  have i': "i < length cmds" using i by simp
  have n: "nextCurve cmds i = Some (Suc i)"
    using i o by (simp add: nextCurve_adjacent)
  have d': "x - ax \<noteq> 0 \<or> y - ay \<noteq> 0" using d by simp
  have ol: "0 \<le> ?ol" by (simp add: dist_p5_def hypot_nonneg_exact)
  have "?len = hypot exact (x - ax) (y - ay)" using d' by (rule lockLen_hypot_exact)
  moreover have "hypot exact (x - ax) (y - ay) \<noteq> 0" using d' by (simp add: hypot_zero_iff_exact)
  ultimately have len: "0 < ?len"
    using hypot_nonneg_exact [of "x - ax" "y - ay"] by simp
  have t: "0 \<le> ?ol / ?len" using ol len by simp
  have s: "setPoint exact cmds \<lparr>index = i, type = C2\<rparr> x y True =
     Inr (cmds[i := Cubic x1 y1 x y ax ay,
               Suc i := Cubic (ax - (x - ax) / ?len * ?ol) (ay - (y - ay) / ?len * ?ol)
                           ox2 oy2 ox oy])"
    using setPoint_c2_lock [OF i' c n o, of exact x y]
    by (simp add: mirrored_exact) (simp add: exact_def)
  show ?thesis
    using s mirror_distance [OF d' ol, of ax ay] t
    by (intro exI [of _ "ax - (x - ax) / ?len * ?ol"] exI [of _ "ay - (y - ay) / ?len * ?ol"]
          exI [of _ "?ol / ?len"]) simp
qed

lemma sqrt_2500: "sqrt 2500 = 50"
  using real_sqrt_abs [of 50] by simp

lemma sqrt_100: "sqrt 100 = 10"
  using real_sqrt_abs [of 10] by simp

lemma round64_three_fifths: "round64 (- 30 / 50) = - d0_6"
  unfolding d0_6_def by (subst round64_scaled [where k = 53]) (simp_all add: roundEven_def)

lemma round64_six: "round64 (- d0_6 * 10) = - 6"
  unfolding d0_6_def by (subst round64_scaled [where k = 50]) (simp_all add: roundEven_def)

lemma round64_four_fifths: "round64 (40 / 50) = d0_8"
  unfolding d0_8_def by (subst round64_scaled [where k = 53]) (simp_all add: roundEven_def)

lemma round64_eight: "round64 (d0_8 * 10) = 8"
  unfolding d0_8_def by (subst round64_scaled [where k = 49]) (simp_all add: roundEven_def)

text \<open>
  Claim C2, where the code departs from it. On two cubics in a row with the lock on,
  \<^verbatim>\<open>c1\<close> of the second is dragged from \<open>(40, 0)\<close> to \<open>(30, 40)\<close>. The anchor it shares with
  the first cubic is \<open>(30, 0)\<close> and the opposite control is \<^verbatim>\<open>c2\<close> of the first cubic, at
  \<open>(20, 0)\<close>, distance 10: mirrored, it would go to \<open>(30, -10)\<close>. The code leaves the first
  cubic as it is and moves \<^verbatim>\<open>c2\<close> of the dragged cubic itself from \<open>(50, 0)\<close> to \<open>(66, -8)\<close>,
  mirroring about that cubic's own end \<open>(60, 0)\<close>.
\<close>

theorem lock_c1_moves_own_c2:
  "setPoint round64 twoCurves \<lparr>index = 2, type = C1\<rparr> 30 40 True =
     Inr [Move 0 0, Cubic 10 0 20 0 30 0, Cubic 30 40 66 (- 8) 60 0]"
proof -
  have s: "setPoint round64 twoCurves \<lparr>index = 2, type = C1\<rparr> 30 40 True =
     Inr (twoCurves[2 := Cubic 30 40
            (mirrored round64 60 30 (lockLen round64 (round64 (30 - 60)) (round64 (40 - 0)))
               (dist_p5 round64 60 0 50 0))
            (mirrored round64 0 40 (lockLen round64 (round64 (30 - 60)) (round64 (40 - 0)))
               (dist_p5 round64 60 0 50 0)) 60 0])"
    by (rule setPoint_c1_lock) (simp_all add: twoCurves_def)
  have dx: "round64 (30 - 60) = - 30" and dy: "round64 (40 - 0) = 40"
    by (simp_all add: round64_int)
  have len: "lockLen round64 (round64 (30 - 60)) (round64 (40 - 0)) = 50"
    by (simp add: lockLen_def hypot_def round64_int sqrt_2500)
  have ol: "dist_p5 round64 60 0 50 0 = 10"
    by (simp add: dist_p5_def hypot_def round64_int sqrt_100)
  have x66: "round64 (60 - - 6) = 66" and y8: "round64 (0 - 8) = - 8"
    by (simp_all add: round64_int)
  have nx: "mirrored round64 60 30 50 10 = 66"
    by (simp only: mirrored_def dx round64_three_fifths round64_six x66)
  have ny: "mirrored round64 0 40 50 10 = - 8"
    by (simp only: mirrored_def dy round64_four_fifths round64_eight y8)
  show ?thesis unfolding s len ol nx ny by (simp add: twoCurves_def)
qed





end
